theory Spec2Isabelle
  imports Main
begin

section \<open>Errors\<close>

text \<open>
  The exceptions of the run, as values. \<open>FileNotFoundError\<close> is the one the source
  raises itself (\<open>extract_first_shp\<close>); \<open>OverflowError\<close> is raised by date arithmetic
  past \<open>date.max\<close>, \<open>KeyError\<close> by a column lookup, \<open>ValueError\<close> by a reprojection
  without a source CRS. \<open>LibraryError\<close> stands for any other subclass of
  \<open>Exception\<close> that a library call (requests, zipfile, geopandas, shapely, pyarrow,
  shutil) raises. \<open>EmptyDatasetError\<close> is the error the specification names for an
  envelope of an empty dataset: the source defines no such class and no statement of
  it raises one.
\<close>

datatype error =
    FileNotFoundError
  | OverflowError
  | KeyError string
  | ValueError
  | LibraryError string
  | EmptyDatasetError

section \<open>Calendar dates\<close>

text \<open>
  A \<open>datetime.date\<close> is represented by its proleptic Gregorian ordinal
  (\<open>date.toordinal()\<close>, day 1 is 0001-01-01): comparison of dates is comparison of
  ordinals, and \<open>date + timedelta(days=n)\<close> is defined by CPython through the ordinal.
  The calendar fields are computed from the ordinal as CPython's \<open>_ord2ymd\<close> does.
\<close>

type_synonym date = int

definition MAXORDINAL :: int where
  "MAXORDINAL = 3652059"

definition valid_date :: "date \<Rightarrow> bool" where
  "valid_date d = (1 \<le> d \<and> d \<le> MAXORDINAL)"

definition is_leap :: "int \<Rightarrow> bool" where
  "is_leap year = (year mod 4 = 0 \<and> (year mod 100 \<noteq> 0 \<or> year mod 400 = 0))"

definition DAYS_IN_MONTH :: "int list" where
  "DAYS_IN_MONTH = [-1, 31, 28, 31, 30, 31, 30, 31, 31, 30, 31, 30, 31]"

definition DAYS_BEFORE_MONTH :: "int list" where
  "DAYS_BEFORE_MONTH = [-1, 0, 31, 59, 90, 120, 151, 181, 212, 243, 273, 304, 334]"

definition days_before_year :: "int \<Rightarrow> int" where
  "days_before_year year =
     (let y = year - 1 in y * 365 + y div 4 - y div 100 + y div 400)"

definition days_in_month :: "int \<Rightarrow> int \<Rightarrow> int" where
  "days_in_month year month =
     (if month = 2 \<and> is_leap year then 29 else DAYS_IN_MONTH ! nat month)"

definition days_before_month :: "int \<Rightarrow> int \<Rightarrow> int" where
  "days_before_month year month =
     DAYS_BEFORE_MONTH ! nat month + (if month > 2 \<and> is_leap year then 1 else 0)"

definition ymd2ord :: "int \<Rightarrow> int \<Rightarrow> int \<Rightarrow> int" where
  "ymd2ord year month day = days_before_year year + days_before_month year month + day"

text \<open>The fields the constructor \<open>date(year, month, day)\<close> accepts.\<close>

definition valid_ymd :: "int \<Rightarrow> int \<Rightarrow> int \<Rightarrow> bool" where
  "valid_ymd year month day =
     (1 \<le> year \<and> year \<le> 9999 \<and> 1 \<le> month \<and> month \<le> 12 \<and>
      1 \<le> day \<and> day \<le> days_in_month year month)"

definition ord2ymd :: "int \<Rightarrow> int \<times> int \<times> int" where
  "ord2ymd n0 =
     (let n = n0 - 1;
          n400 = n div 146097; n = n mod 146097;
          year = n400 * 400 + 1;
          n100 = n div 36524; n = n mod 36524;
          n4 = n div 1461; n = n mod 1461;
          n1 = n div 365; n = n mod 365;
          year = year + n100 * 100 + n4 * 4 + n1
      in if n1 = 4 \<or> n100 = 4 then (year - 1, 12, 31)
         else
           let leapyear = (n1 = 3 \<and> (n4 \<noteq> 24 \<or> n100 = 3));
               month = (n + 50) div 32;
               preceding = DAYS_BEFORE_MONTH ! nat month
                             + (if month > 2 \<and> leapyear then 1 else 0)
           in if preceding > n
              then
                let month = month - 1;
                    preceding = preceding
                      - (DAYS_IN_MONTH ! nat month + (if month = 2 \<and> leapyear then 1 else 0))
                in (year, month, n - preceding + 1)
              else (year, month, n - preceding + 1))"

text \<open>The second half of \<open>ord2ymd\<close>, named for the proofs: month and day within the year.\<close>

definition ord2ymd_tail :: "int \<Rightarrow> bool \<Rightarrow> int \<Rightarrow> int \<times> int \<times> int" where
  "ord2ymd_tail year leapyear n =
     (let month = (n + 50) div 32;
          preceding = DAYS_BEFORE_MONTH ! nat month + (if month > 2 \<and> leapyear then 1 else 0)
      in if preceding > n
         then
           let month = month - 1;
               preceding = preceding
                 - (DAYS_IN_MONTH ! nat month + (if month = 2 \<and> leapyear then 1 else 0))
           in (year, month, n - preceding + 1)
         else (year, month, n - preceding + 1))"

text \<open>\<open>d + timedelta(days=n)\<close>: \<open>OverflowError\<close> when the result leaves the calendar.\<close>

definition date_add_days :: "date \<Rightarrow> int \<Rightarrow> error + date" where
  "date_add_days d n =
     (let o' = d + n in if 0 < o' \<and> o' \<le> MAXORDINAL then Inr o' else Inl OverflowError)"

section \<open>String formatting\<close>

fun digits10 :: "nat \<Rightarrow> string" where
  "digits10 n =
     (if n < 10 then [''0123456789'' ! n]
      else digits10 (n div 10) @ [''0123456789'' ! (n mod 10)])"

declare digits10.simps [simp del]

text \<open>A non-negative field printed in at least \<open>w\<close> columns, padded with zeros.\<close>

definition zpad :: "nat \<Rightarrow> int \<Rightarrow> string" where
  "zpad w n = (let s = digits10 (nat n) in replicate (w - length s) (CHR ''0'') @ s)"

text \<open>
  \<open>date.strftime\<close> for the directives the source uses: \<open>%m\<close> and \<open>%d\<close> are two
  digits, \<open>%Y\<close> the year with century in four digits (0001 to 9999, as the library
  documents it); every other character is copied.
\<close>

fun strftime_ymd :: "int \<times> int \<times> int \<Rightarrow> string \<Rightarrow> string" where
  "strftime_ymd ymd [] = []"
| "strftime_ymd ymd [c] = [c]"
| "strftime_ymd ymd (c # k # fmt) =
     (if c = CHR ''%'' then
        (if k = CHR ''m'' then zpad 2 (fst (snd ymd)) @ strftime_ymd ymd fmt
         else if k = CHR ''d'' then zpad 2 (snd (snd ymd)) @ strftime_ymd ymd fmt
         else if k = CHR ''Y'' then zpad 4 (fst ymd) @ strftime_ymd ymd fmt
         else c # k # strftime_ymd ymd fmt)
      else c # strftime_ymd ymd (k # fmt))"

definition strftime :: "date \<Rightarrow> string \<Rightarrow> string" where
  "strftime d fmt = strftime_ymd (ord2ymd d) fmt"

text \<open>Reading a decimal numeral back, to state what a formatted field encodes.\<close>

definition digit_val :: "char \<Rightarrow> nat" where
  "digit_val c = of_char c - 48"

definition val10 :: "string \<Rightarrow> nat" where
  "val10 s = foldl (\<lambda>acc c. 10 * acc + digit_val c) 0 s"

definition is_digit :: "char \<Rightarrow> bool" where
  "is_digit c = (c \<in> set ''0123456789'')"

section \<open>Helpers of the source\<close>

subsection \<open>\<open>date_iter\<close>\<close>

text \<open>
  The generator \<open>date_iter(d0, d1)\<close>. Its result is the list of the dates it yields and
  how it ends: \<open>None\<close> when the loop condition fails, \<open>Some OverflowError\<close> when
  \<open>d += timedelta(days=1)\<close> raises after the last date of the calendar was yielded.
\<close>

function date_iter :: "date \<Rightarrow> date \<Rightarrow> date list \<times> error option" where
  "date_iter d d1 =
     (if d \<le> d1 then
        (case date_add_days d 1 of
           Inl e \<Rightarrow> ([d], Some e)
         | Inr d' \<Rightarrow> (case date_iter d' d1 of (ds, r) \<Rightarrow> (d # ds, r)))
      else ([], None))"
  by pat_completeness auto
termination
  by (relation "measure (\<lambda>(d, d1). nat (d1 - d + 1))")
     (auto simp: date_add_days_def Let_def split: if_splits)

declare date_iter.simps [simp del]

section \<open>Configuration\<close>

text \<open>The module constants read from the environment at import time.\<close>

record config =
  PARQUET_PATH :: string
  OUTPUT_DIR :: string
  START_DATE :: date
  END_DATE :: date
  ASSET_BASE_URL_GEOJSON :: string
  USNIC_PREFIX :: string

subsection \<open>\<open>usnic_zip_url\<close>\<close>

definition usnic_zip_url :: "config \<Rightarrow> date \<Rightarrow> string" where
  "usnic_zip_url cfg d =
     ''https://usicecenter.gov/File/DownloadArchive?prd='' @ USNIC_PREFIX cfg
       @ strftime d ''%m%d%Y''"

section \<open>Geometry datasets\<close>

text \<open>
  A \<open>GeoDataFrame\<close> read from a shapefile: its CRS (\<open>None\<close> when unknown, else the
  EPSG code) and its rows, each with its attributes and its geometry (\<open>None\<close> for a
  missing geometry). The geometries themselves belong to the geometry library: the
  operations of shapely and pyproj the source calls are the fields of a record, and
  each may raise. \<open>geom_bounds\<close> gives the bounds (minx, miny, maxx, maxy) of a geometry
  that is not empty, those of an empty one being four NaN. \<open>geom_ring_error\<close> is the
  exception with which the library refuses a ring whose first and last point differ
  (\<open>GEOSException\<close> in shapely 2, \<open>ValueError\<close> in shapely 1).
\<close>

record ('a, 'g) gdf =
  crs :: "nat option"
  rows :: "('a \<times> 'g option) list"

record ('g, 'c) shapely =
  geom_is_valid :: "'g \<Rightarrow> bool"
  geom_is_empty :: "'g \<Rightarrow> bool"
  geom_buffer0 :: "'g \<Rightarrow> error + 'g"
  geom_transform :: "nat \<Rightarrow> nat \<Rightarrow> 'g \<Rightarrow> error + 'g"
  geom_bounds :: "'g \<Rightarrow> 'c \<times> 'c \<times> 'c \<times> 'c"
  geom_ring_error :: error

definition gdf_empty :: "('a, 'g) gdf \<Rightarrow> bool" where
  "gdf_empty g = (rows g = [])"

text \<open>\<open>GeoSeries.apply(f)\<close>: \<open>f\<close> is called on every element in order, missing ones too.\<close>

fun apply_geometry ::
  "('g option \<Rightarrow> error + 'g option) \<Rightarrow> ('a \<times> 'g option) list
     \<Rightarrow> error + ('a \<times> 'g option) list" where
  "apply_geometry f [] = Inr []"
| "apply_geometry f ((a, g) # rs) =
     (case f g of
        Inl e \<Rightarrow> Inl e
      | Inr g' \<Rightarrow>
          (case apply_geometry f rs of Inl e \<Rightarrow> Inl e | Inr rs' \<Rightarrow> Inr ((a, g') # rs')))"

text \<open>\<open>gdf.to_crs(target)\<close>: missing geometries stay missing.\<close>

definition reproject ::
  "('g, 'c) shapely \<Rightarrow> nat \<Rightarrow> nat \<Rightarrow> 'g option \<Rightarrow> error + 'g option" where
  "reproject lib src target geom =
     (case geom of
        None \<Rightarrow> Inr None
      | Some x \<Rightarrow>
          (case geom_transform lib src target x of Inl e \<Rightarrow> Inl e | Inr x' \<Rightarrow> Inr (Some x')))"

definition to_crs :: "('g, 'c) shapely \<Rightarrow> ('a, 'g) gdf \<Rightarrow> nat \<Rightarrow> error + ('a, 'g) gdf" where
  "to_crs lib g target =
     (case crs g of
        None \<Rightarrow> Inl ValueError
      | Some src \<Rightarrow>
          (case apply_geometry (reproject lib src target) (rows g) of
             Inl e \<Rightarrow> Inl e
           | Inr rs \<Rightarrow> Inr \<lparr>crs = Some target, rows = rs\<rparr>))"

subsection \<open>\<open>to_geojson_ll\<close>\<close>

text \<open>
  The module-level name \<open>_make_valid\<close> is the second argument: \<open>Some f\<close> when one of
  the two imports succeeded, \<open>None\<close> when both failed.
\<close>

definition buffer_if_invalid :: "('g, 'c) shapely \<Rightarrow> 'g option \<Rightarrow> error + 'g option" where
  "buffer_if_invalid lib geom =
     (case geom of
        None \<Rightarrow> Inr None
      | Some x \<Rightarrow>
          if geom_is_valid lib x then Inr (Some x)
          else (case geom_buffer0 lib x of Inl e \<Rightarrow> Inl e | Inr x' \<Rightarrow> Inr (Some x')))"

definition keep_row :: "('g, 'c) shapely \<Rightarrow> 'a \<times> 'g option \<Rightarrow> bool" where
  "keep_row lib r = (case snd r of None \<Rightarrow> False | Some x \<Rightarrow> \<not> geom_is_empty lib x)"

text \<open>One row through one step of the pipeline: the attributes kept, the geometry mapped.\<close>

definition row_step ::
  "('g option \<Rightarrow> error + 'g option) \<Rightarrow> 'a \<times> 'g option \<Rightarrow> 'a \<times> 'g option \<Rightarrow> bool" where
  "row_step f r r' = (fst r' = fst r \<and> f (snd r) = Inr (snd r'))"

definition to_geojson_ll ::
  "('g, 'c) shapely \<Rightarrow> ('g option \<Rightarrow> error + 'g option) option \<Rightarrow> ('a, 'g) gdf
     \<Rightarrow> error + ('a, 'g) gdf" where
  "to_geojson_ll lib make_valid_opt gdf_src =
     (let gdf_src = (if crs gdf_src = None then gdf_src\<lparr>crs := Some 3031\<rparr> else gdf_src) in
      case to_crs lib gdf_src 4326 of
        Inl e \<Rightarrow> Inl e
      | Inr gdf_ll \<Rightarrow>
          (case (case make_valid_opt of
                   None \<Rightarrow> Inr (rows gdf_ll)
                 | Some f \<Rightarrow> apply_geometry f (rows gdf_ll)) of
             Inl e \<Rightarrow> Inl e
           | Inr rs \<Rightarrow>
               (case apply_geometry (buffer_if_invalid lib) rs of
                  Inl e \<Rightarrow> Inl e
                | Inr rs' \<Rightarrow> Inr (gdf_ll\<lparr>rows := filter (keep_row lib) rs'\<rparr>))))"

subsection \<open>\<open>bbox_envelope\<close>\<close>

text \<open>
  A coordinate is \<open>None\<close> for NaN. A polygon is the list of the corners its constructor
  was given. \<open>total_bounds\<close> is geopandas' property: four NaN for a frame without rows,
  else \<open>nanmin\<close> and \<open>nanmax\<close> over the rows' bounds, where the row of a missing or
  empty geometry is NaN.

  \<open>box\<close> is shapely's constructor of a rectangle: it passes the four corners to
  \<open>Polygon\<close>, which closes the ring with a copy of the first corner and hands it to
  GEOS. GEOS accepts a ring only if its first and last point are equal, and NaN is not
  equal to NaN: with a NaN in the first corner (\<open>maxx\<close>, \<open>miny\<close>) the call raises
  ("Points of LinearRing do not form a closed linestring"). So \<open>bbox_envelope\<close>, which
  has no check of its own, raises inside \<open>box\<close> for a frame without rows.
\<close>

datatype 'c polygon = Polygon "('c option \<times> 'c option) list"

definition row_bounds :: "('g, 'c) shapely \<Rightarrow> 'g option \<Rightarrow> ('c \<times> 'c \<times> 'c \<times> 'c) option" where
  "row_bounds lib geom =
     (case geom of
        None \<Rightarrow> None
      | Some x \<Rightarrow> if geom_is_empty lib x then None else Some (geom_bounds lib x))"

definition nanmin :: "('c::linorder) option list \<Rightarrow> 'c option" where
  "nanmin xs = (case List.map_filter id xs of [] \<Rightarrow> None | y # ys \<Rightarrow> Some (fold min ys y))"

definition nanmax :: "('c::linorder) option list \<Rightarrow> 'c option" where
  "nanmax xs = (case List.map_filter id xs of [] \<Rightarrow> None | y # ys \<Rightarrow> Some (fold max ys y))"

definition total_bounds ::
  "('g, 'c::linorder) shapely \<Rightarrow> ('a, 'g) gdf
     \<Rightarrow> 'c option \<times> 'c option \<times> 'c option \<times> 'c option" where
  "total_bounds lib g =
     (if rows g = [] then (None, None, None, None)
      else
        let b = map (\<lambda>r. row_bounds lib (snd r)) (rows g)
        in (nanmin (map (map_option (\<lambda>(x0, y0, x1, y1). x0)) b),
            nanmin (map (map_option (\<lambda>(x0, y0, x1, y1). y0)) b),
            nanmax (map (map_option (\<lambda>(x0, y0, x1, y1). x1)) b),
            nanmax (map (map_option (\<lambda>(x0, y0, x1, y1). y1)) b)))"

definition box ::
  "('g, 'c) shapely \<Rightarrow> 'c option \<Rightarrow> 'c option \<Rightarrow> 'c option \<Rightarrow> 'c option
     \<Rightarrow> error + 'c polygon" where
  "box lib minx miny maxx maxy =
     (if maxx = None \<or> miny = None then Inl (geom_ring_error lib)
      else Inr (Polygon [(maxx, miny), (maxx, maxy), (minx, maxy), (minx, miny)]))"

definition bbox_envelope ::
  "('g, 'c::linorder) shapely \<Rightarrow> ('a, 'g) gdf \<Rightarrow> error + 'c polygon" where
  "bbox_envelope lib gdf_ll =
     (case total_bounds lib gdf_ll of
        (minx, miny, maxx, maxy) \<Rightarrow> box lib minx miny maxx maxy)"

section \<open>The catalog table\<close>

text \<open>
  A \<open>DataFrame\<close>: the column names in order, the row labels (the index), and the rows,
  each a dictionary from column name to cell, kept as an association list in column
  order. \<open>NA\<close> is the missing marker (\<open>pd.NA\<close>, NaN); \<open>Other\<close> is any scalar of a
  legacy column.
\<close>

datatype 'c cell = Str string | Timestamp date | Geometry "'c polygon" | NA | Other string

type_synonym 'c record_row = "(string \<times> 'c cell) list"

record 'c dataframe =
  columns :: "string list"
  index :: "nat list"
  data :: "'c record_row list"

definition cell_of :: "'c record_row \<Rightarrow> string \<Rightarrow> 'c cell" where
  "cell_of r c = (case map_of r c of None \<Rightarrow> NA | Some v \<Rightarrow> v)"

definition reindex_row :: "string list \<Rightarrow> 'c record_row \<Rightarrow> 'c record_row" where
  "reindex_row cols r = map (\<lambda>c. (c, cell_of r c)) cols"

definition df_empty :: "'c dataframe \<Rightarrow> bool" where
  "df_empty df = (data df = [] \<or> columns df = [])"

text \<open>
  What every \<open>DataFrame\<close> satisfies: the column names are distinct, each row has a cell
  for exactly the columns, and there is a label for each row.
\<close>

definition wf_df :: "'c dataframe \<Rightarrow> bool" where
  "wf_df df =
     (distinct (columns df) \<and> list_all (\<lambda>r. map fst r = columns df) (data df)
      \<and> length (index df) = length (data df))"

text \<open>\<open>GeoDataFrame(records)\<close> from a list of dictionaries: the keys in first-seen order.\<close>

definition add_keys :: "string list \<Rightarrow> 'c record_row \<Rightarrow> string list" where
  "add_keys acc r = acc @ filter (\<lambda>k. k \<notin> set acc) (remdups (map fst r))"

definition GeoDataFrame :: "'c record_row list \<Rightarrow> 'c dataframe" where
  "GeoDataFrame records =
     (let cols = foldl add_keys [] records
      in \<lparr>columns = cols, index = [0..<length records],
          data = map (reindex_row cols) records\<rparr>)"

text \<open>\<open>df[c] = v\<close> with a scalar \<open>v\<close>: a new last column, or an existing one overwritten.\<close>

definition setitem :: "'c dataframe \<Rightarrow> string \<Rightarrow> 'c cell \<Rightarrow> 'c dataframe" where
  "setitem df c v =
     (if c \<in> set (columns df)
      then df\<lparr>data := map (map (\<lambda>(k, x). if k = c then (k, v) else (k, x))) (data df)\<rparr>
      else df\<lparr>columns := columns df @ [c], data := map (\<lambda>r. r @ [(c, v)]) (data df)\<rparr>)"

text \<open>\<open>df[cols]\<close> with a list of names: \<open>KeyError\<close> on the first name that is no column.\<close>

definition getitem_cols :: "'c dataframe \<Rightarrow> string list \<Rightarrow> error + 'c dataframe" where
  "getitem_cols df cols =
     (case filter (\<lambda>c. c \<notin> set (columns df)) cols of
        c # _ \<Rightarrow> Inl (KeyError c)
      | [] \<Rightarrow> Inr (df\<lparr>columns := cols, data := map (reindex_row cols) (data df)\<rparr>))"

text \<open>\<open>pd.concat([a, b], ignore_index=True)\<close>: the union of the columns, \<open>a\<close>'s first.\<close>

definition concat_ignore_index :: "'c dataframe \<Rightarrow> 'c dataframe \<Rightarrow> 'c dataframe" where
  "concat_ignore_index a b =
     (let cols = columns a @ filter (\<lambda>c. c \<notin> set (columns a)) (columns b);
          rs = map (reindex_row cols) (data a @ data b)
      in \<lparr>columns = cols, index = [0..<length rs], data = rs\<rparr>)"

text \<open>Lines 183 to 191 of \<open>main\<close>: the new records merged into the loaded catalog.\<close>

definition align_columns :: "string list \<Rightarrow> 'c dataframe \<Rightarrow> 'c dataframe" where
  "align_columns cols df_new =
     foldl (\<lambda>df c. if c \<notin> set (columns df) then setitem df c NA else df) df_new cols"

definition merge_catalog :: "'c dataframe \<Rightarrow> 'c dataframe \<Rightarrow> error + 'c dataframe" where
  "merge_catalog existing df_new =
     (if df_empty existing then Inr df_new
      else
        (case getitem_cols (align_columns (columns existing) df_new) (columns existing) of
           Inl e \<Rightarrow> Inl e
         | Inr df_new' \<Rightarrow> Inr (concat_ignore_index existing df_new')))"

section \<open>The outside world\<close>

text \<open>
  What the run does not compute itself: the HTTP download, the archive's content (the
  shapefiles found under the target directory after extraction), the shapefile reader,
  the writers and the file copy (each may raise a subclass of \<open>Exception\<close>, and a
  writer that raises leaves no file), the geometry library, the imported
  \<open>_make_valid\<close>, and \<open>str\<close> of a cell that is no string.
\<close>

record ('a, 'g, 'c) world =
  requests_get :: "string \<Rightarrow> error + string"
  unzip_shp :: "string \<Rightarrow> string \<Rightarrow> error + string list"
  read_file :: "string \<Rightarrow> error + ('a, 'g) gdf"
  to_file :: "string \<Rightarrow> ('a, 'g) gdf \<Rightarrow> error option"
  to_parquet :: "string \<Rightarrow> 'c dataframe \<Rightarrow> error option"
  shutil_copy :: "string \<Rightarrow> string \<Rightarrow> error option"
  geos :: "('g, 'c) shapely"
  make_valid :: "('g option \<Rightarrow> error + 'g option) option"
  str_of_cell :: "'c cell \<Rightarrow> string"

text \<open>
  The files the run reads and writes, and its standard output (\<open>print\<close> is taken
  not to fail). The catalog file holds a table, which \<open>read_parquet\<close> returns as
  \<open>to_parquet\<close> wrote it, or content that \<open>read_parquet\<close> rejects. The directories
  of temporary files are left out: nothing reads them but the world's own reader.
\<close>

datatype msg =
    Fetching date date string
  | SkipPresent string
  | Download string
  | FailedShapefile date error
  | NoValidGeometry date
  | AllEmpty date
  | ErrorProcessing date error
  | Saved nat string
  | NoNewItems
  | Copying string string

datatype 'c pfile = Table "'c dataframe" | Unreadable error

record ('a, 'g, 'c) fs =
  geojsons :: "string \<rightharpoonup> ('a, 'g) gdf"
  parquet :: "'c pfile option"
  public_copy :: "'c pfile option"
  stdout :: "msg list"

definition print_msg :: "msg \<Rightarrow> ('a, 'g, 'c) fs \<Rightarrow> ('a, 'g, 'c) fs" where
  "print_msg m st = st\<lparr>stdout := stdout st @ [m]\<rparr>"

subsection \<open>\<open>download_zip_bytes\<close>, \<open>extract_first_shp\<close>, \<open>load_existing_parquet\<close>\<close>

definition download_zip_bytes :: "('a, 'g, 'c) world \<Rightarrow> string \<Rightarrow> error + string" where
  "download_zip_bytes w url = requests_get w url"

definition extract_first_shp :: "('a, 'g, 'c) world \<Rightarrow> string \<Rightarrow> string \<Rightarrow> error + string" where
  "extract_first_shp w zip_bytes target_dir =
     (case unzip_shp w zip_bytes target_dir of
        Inl e \<Rightarrow> Inl e
      | Inr shp_files \<Rightarrow>
          (case shp_files of [] \<Rightarrow> Inl FileNotFoundError | p # _ \<Rightarrow> Inr p))"

definition load_existing_parquet :: "('a, 'g, 'c) fs \<Rightarrow> error + 'c dataframe" where
  "load_existing_parquet st =
     (case parquet st of
        Some (Table df) \<Rightarrow> Inr df
      | Some (Unreadable e) \<Rightarrow> Inl e
      | None \<Rightarrow>
          Inr \<lparr>columns = [''id'', ''datetime'', ''href'', ''geometry''], index = [], data = []\<rparr>)"

subsection \<open>\<open>main\<close>\<close>

text \<open>Line 128: the ids of the loaded catalog, as strings.\<close>

definition astype_str :: "('a, 'g, 'c) world \<Rightarrow> 'c cell \<Rightarrow> string" where
  "astype_str w v = (case v of Str s \<Rightarrow> s | _ \<Rightarrow> str_of_cell w v)"

definition existing_ids :: "('a, 'g, 'c) world \<Rightarrow> 'c dataframe \<Rightarrow> error + string set" where
  "existing_ids w existing =
     (if \<not> df_empty existing then
        (if ''id'' \<in> set (columns existing)
         then Inr (set (map (\<lambda>r. astype_str w (cell_of r ''id'')) (data existing)))
         else Inl (KeyError ''id''))
      else Inr {})"

definition item_id_of :: "date \<Rightarrow> string" where
  "item_id_of d = ''USNIC_'' @ strftime d ''%Y%m%d''"

text \<open>Lines 139 to 145: the first \<open>try\<close> block, without its handler.\<close>

definition fetch_shapefile ::
  "config \<Rightarrow> ('a, 'g, 'c) world \<Rightarrow> string \<Rightarrow> string \<Rightarrow> ('a, 'g, 'c) fs
     \<Rightarrow> (error + string) \<times> ('a, 'g, 'c) fs" where
  "fetch_shapefile cfg w item_id url st =
     (let st1 = print_msg (Download url) st in
      case download_zip_bytes w url of
        Inl e \<Rightarrow> (Inl e, st1)
      | Inr zbytes \<Rightarrow>
          (extract_first_shp w zbytes (OUTPUT_DIR cfg @ ''/_tmp_usnic/'' @ item_id), st1))"

text \<open>Lines 147 to 173: the second \<open>try\<close> block, without its handler.\<close>

definition process_shapefile ::
  "config \<Rightarrow> ('a, 'g, 'c::linorder) world \<Rightarrow> date \<Rightarrow> string \<Rightarrow> string
     \<Rightarrow> 'c record_row list \<Rightarrow> ('a, 'g, 'c) fs
     \<Rightarrow> (error + 'c record_row list) \<times> ('a, 'g, 'c) fs" where
  "process_shapefile cfg w d item_id shp_path new_rows st =
     (case read_file w shp_path of
        Inl e \<Rightarrow> (Inl e, st)
      | Inr gdf_src \<Rightarrow>
          if gdf_empty gdf_src \<or> list_all (\<lambda>r. snd r = None) (rows gdf_src)
          then (Inr new_rows, print_msg (NoValidGeometry d) st)
          else
            (case to_geojson_ll (geos w) (make_valid w) gdf_src of
               Inl e \<Rightarrow> (Inl e, st)
             | Inr gdf_ll \<Rightarrow>
                 if gdf_empty gdf_ll
                 then (Inr new_rows, print_msg (AllEmpty d) st)
                 else
                   let out_geojson = OUTPUT_DIR cfg @ ''/'' @ item_id @ ''.geojson'' in
                   (case to_file w out_geojson gdf_ll of
                      Some e \<Rightarrow> (Inl e, st)
                    | None \<Rightarrow>
                        let st1 = st\<lparr>geojsons := (geojsons st)(out_geojson \<mapsto> gdf_ll)\<rparr> in
                        (case bbox_envelope (geos w) gdf_ll of
                           Inl e \<Rightarrow> (Inl e, st1)
                         | Inr geom_env \<Rightarrow>
                             (Inr (new_rows @
                                [[(''id'', Str item_id),
                                  (''datetime'', Timestamp d),
                                  (''href'',
                                     Str (ASSET_BASE_URL_GEOJSON cfg @ ''/'' @ item_id
                                            @ ''.geojson'')),
                                  (''geometry'', Geometry geom_env)]]),
                              st1)))))"

text \<open>Lines 133 to 177: the body of the loop, with the two handlers.\<close>

definition visit_date ::
  "config \<Rightarrow> ('a, 'g, 'c::linorder) world \<Rightarrow> string set \<Rightarrow> date
     \<Rightarrow> 'c record_row list \<Rightarrow> ('a, 'g, 'c) fs
     \<Rightarrow> (error + 'c record_row list) \<times> ('a, 'g, 'c) fs" where
  "visit_date cfg w ids d new_rows st =
     (let item_id = item_id_of d in
      if item_id \<in> ids then (Inr new_rows, print_msg (SkipPresent item_id) st)
      else
        let url = usnic_zip_url cfg d in
        (case fetch_shapefile cfg w item_id url st of
           (Inl e, st1) \<Rightarrow> (Inr new_rows, print_msg (FailedShapefile d e) st1)
         | (Inr shp_path, st1) \<Rightarrow>
             (case process_shapefile cfg w d item_id shp_path new_rows st1 of
                (Inl e, st2) \<Rightarrow> (Inr new_rows, print_msg (ErrorProcessing d e) st2)
              | (Inr new_rows', st2) \<Rightarrow> (Inr new_rows', st2))))"

text \<open>The \<open>for\<close> statement over the dates the generator yields: an error of the body ends it.\<close>

fun visit_dates ::
  "config \<Rightarrow> ('a, 'g, 'c::linorder) world \<Rightarrow> string set \<Rightarrow> date list
     \<Rightarrow> 'c record_row list \<Rightarrow> ('a, 'g, 'c) fs
     \<Rightarrow> (error + 'c record_row list) \<times> ('a, 'g, 'c) fs" where
  "visit_dates cfg w ids [] new_rows st = (Inr new_rows, st)"
| "visit_dates cfg w ids (d # ds) new_rows st =
     (case visit_date cfg w ids d new_rows st of
        (Inl e, st1) \<Rightarrow> (Inl e, st1)
      | (Inr new_rows', st1) \<Rightarrow> visit_dates cfg w ids ds new_rows' st1)"

text \<open>Lines 180 to 196: the catalog is written when there is a new row.\<close>

definition save_parquet ::
  "config \<Rightarrow> ('a, 'g, 'c) world \<Rightarrow> 'c dataframe \<Rightarrow> 'c record_row list \<Rightarrow> ('a, 'g, 'c) fs
     \<Rightarrow> error option \<times> ('a, 'g, 'c) fs" where
  "save_parquet cfg w existing new_rows st =
     (if new_rows \<noteq> [] then
        (case merge_catalog existing (GeoDataFrame new_rows) of
           Inl e \<Rightarrow> (Some e, st)
         | Inr df_out \<Rightarrow>
             (case to_parquet w (PARQUET_PATH cfg) df_out of
                Some e \<Rightarrow> (Some e, st)
              | None \<Rightarrow>
                  (None,
                   print_msg (Saved (length new_rows) (PARQUET_PATH cfg))
                     (st\<lparr>parquet := Some (Table df_out)\<rparr>))))
      else (None, print_msg NoNewItems st))"

text \<open>Lines 198 to 201: the catalog file, when there is one, is copied to the output directory.\<close>

definition copy_parquet ::
  "config \<Rightarrow> ('a, 'g, 'c) world \<Rightarrow> ('a, 'g, 'c) fs \<Rightarrow> error option \<times> ('a, 'g, 'c) fs" where
  "copy_parquet cfg w st =
     (if parquet st \<noteq> None then
        (let st1 = print_msg (Copying (PARQUET_PATH cfg) (OUTPUT_DIR cfg)) st in
         case shutil_copy w (PARQUET_PATH cfg) (OUTPUT_DIR cfg) of
           Some e \<Rightarrow> (Some e, st1)
         | None \<Rightarrow> (None, st1\<lparr>public_copy := parquet st1\<rparr>))
      else (None, st))"

text \<open>
  The run: the exception that ended it, if any, and the files and output it leaves.
\<close>

definition main ::
  "config \<Rightarrow> ('a, 'g, 'c::linorder) world \<Rightarrow> ('a, 'g, 'c) fs
     \<Rightarrow> error option \<times> ('a, 'g, 'c) fs" where
  "main cfg w st0 =
     (let st = print_msg (Fetching (START_DATE cfg) (END_DATE cfg) (USNIC_PREFIX cfg)) st0 in
      case load_existing_parquet st of
        Inl e \<Rightarrow> (Some e, st)
      | Inr existing \<Rightarrow>
          (case existing_ids w existing of
             Inl e \<Rightarrow> (Some e, st)
           | Inr ids \<Rightarrow>
               (case date_iter (START_DATE cfg) (END_DATE cfg) of
                  (dates, raised) \<Rightarrow>
                    (case visit_dates cfg w ids dates [] st of
                       (Inl e, st1) \<Rightarrow> (Some e, st1)
                     | (Inr new_rows, st1) \<Rightarrow>
                         (case raised of
                            Some e \<Rightarrow> (Some e, st1)
                          | None \<Rightarrow>
                              (case save_parquet cfg w existing new_rows st1 of
                                 (Some e, st2) \<Rightarrow> (Some e, st2)
                               | (None, st2) \<Rightarrow> copy_parquet cfg w st2))))))"


section \<open>What one date contributes\<close>

text \<open>
  For the proofs about the loop: what visiting a date that is not yet in the catalog
  prints, and the file and the row it adds if any, as a function of the date alone.
  \<open>FileOnly\<close> is the outcome of the envelope raising after the GeoJSON file was written.
  Lemma \<open>visit_date_eq\<close> shows that the body of the loop does exactly this.
\<close>

datatype ('a, 'g, 'c) verdict =
    NoRow "msg list"
  | FileOnly "msg list" string "('a, 'g) gdf"
  | NewRow "msg list" string "('a, 'g) gdf" "'c record_row"

definition date_verdict ::
  "config \<Rightarrow> ('a, 'g, 'c::linorder) world \<Rightarrow> date \<Rightarrow> ('a, 'g, 'c) verdict" where
  "date_verdict cfg w d =
     (let item_id = item_id_of d; url = usnic_zip_url cfg d in
      case (case download_zip_bytes w url of
              Inl e \<Rightarrow> Inl e
            | Inr zbytes \<Rightarrow>
                extract_first_shp w zbytes (OUTPUT_DIR cfg @ ''/_tmp_usnic/'' @ item_id)) of
        Inl e \<Rightarrow> NoRow [Download url, FailedShapefile d e]
      | Inr shp_path \<Rightarrow>
          (case read_file w shp_path of
             Inl e \<Rightarrow> NoRow [Download url, ErrorProcessing d e]
           | Inr gdf_src \<Rightarrow>
               if gdf_empty gdf_src \<or> list_all (\<lambda>r. snd r = None) (rows gdf_src)
               then NoRow [Download url, NoValidGeometry d]
               else
                 (case to_geojson_ll (geos w) (make_valid w) gdf_src of
                    Inl e \<Rightarrow> NoRow [Download url, ErrorProcessing d e]
                  | Inr gdf_ll \<Rightarrow>
                      if gdf_empty gdf_ll then NoRow [Download url, AllEmpty d]
                      else
                        (case to_file w (OUTPUT_DIR cfg @ ''/'' @ item_id @ ''.geojson'')
                                gdf_ll of
                           Some e \<Rightarrow> NoRow [Download url, ErrorProcessing d e]
                         | None \<Rightarrow>
                             (case bbox_envelope (geos w) gdf_ll of
                                Inl e \<Rightarrow>
                                  FileOnly [Download url, ErrorProcessing d e]
                                    (OUTPUT_DIR cfg @ ''/'' @ item_id @ ''.geojson'') gdf_ll
                              | Inr geom_env \<Rightarrow>
                                  NewRow [Download url]
                                    (OUTPUT_DIR cfg @ ''/'' @ item_id @ ''.geojson'') gdf_ll
                                    [(''id'', Str item_id),
                                     (''datetime'', Timestamp d),
                                     (''href'',
                                        Str (ASSET_BASE_URL_GEOJSON cfg @ ''/'' @ item_id
                                               @ ''.geojson'')),
                                     (''geometry'', Geometry geom_env)])))))"

fun apply_verdict ::
  "('a, 'g, 'c) verdict \<Rightarrow> 'c record_row list \<Rightarrow> ('a, 'g, 'c) fs
     \<Rightarrow> (error + 'c record_row list) \<times> ('a, 'g, 'c) fs" where
  "apply_verdict (NoRow ms) new_rows st = (Inr new_rows, st\<lparr>stdout := stdout st @ ms\<rparr>)"
| "apply_verdict (FileOnly ms p g) new_rows st =
     (Inr new_rows, st\<lparr>geojsons := (geojsons st)(p \<mapsto> g), stdout := stdout st @ ms\<rparr>)"
| "apply_verdict (NewRow ms p g r) new_rows st =
     (Inr (new_rows @ [r]),
      st\<lparr>geojsons := (geojsons st)(p \<mapsto> g), stdout := stdout st @ ms\<rparr>)"

fun is_saved :: "msg \<Rightarrow> bool" where
  "is_saved (Saved n p) = True"
| "is_saved m = False"

definition ids_of :: "('a, 'g, 'c) world \<Rightarrow> 'c record_row list \<Rightarrow> string set" where
  "ids_of w rs = set (map (\<lambda>r. astype_str w (cell_of r ''id'')) rs)"

definition canonical_row :: "'c record_row \<Rightarrow> bool" where
  "canonical_row r = (map fst r = [''id'', ''datetime'', ''href'', ''geometry''])"

section \<open>A symbolic geometry library\<close>

text \<open>
  For the examples: a geometry is the term of the operations applied to a raw shape, so
  that a result shows which operations produced it. A raw shape carries whether it is
  valid; the results of the two repairs are valid.
\<close>

datatype sym_geom =
    Raw bool bool
  | Reprojected nat nat sym_geom
  | MadeValid sym_geom
  | Buffered sym_geom

fun sym_valid :: "sym_geom \<Rightarrow> bool" where
  "sym_valid (Raw v e) = v"
| "sym_valid (Reprojected s t g) = sym_valid g"
| "sym_valid (MadeValid g) = True"
| "sym_valid (Buffered g) = True"

fun sym_empty :: "sym_geom \<Rightarrow> bool" where
  "sym_empty (Raw v e) = e"
| "sym_empty (Reprojected s t g) = sym_empty g"
| "sym_empty (MadeValid g) = sym_empty g"
| "sym_empty (Buffered g) = sym_empty g"

fun repair_applied :: "sym_geom \<Rightarrow> bool" where
  "repair_applied (Raw v e) = False"
| "repair_applied (Reprojected s t g) = repair_applied g"
| "repair_applied (MadeValid g) = True"
| "repair_applied (Buffered g) = True"

definition sym_lib :: "(sym_geom, int) shapely" where
  "sym_lib =
     \<lparr>geom_is_valid = sym_valid,
      geom_is_empty = sym_empty,
      geom_buffer0 = (\<lambda>g. Inr (Buffered g)),
      geom_transform = (\<lambda>s t g. Inr (Reprojected s t g)),
      geom_bounds = (\<lambda>g. (10, 40, 20, 50)),
      geom_ring_error = LibraryError ''GEOSException''\<rparr>"

definition sym_make_valid :: "sym_geom option \<Rightarrow> error + sym_geom option" where
  "sym_make_valid geom = Inr (map_option MadeValid geom)"

text \<open>
  A world around it in which nothing raises: every archive holds one shapefile with an
  invalid geometry and a missing one.
\<close>

definition sym_world :: "(nat, sym_geom, int) world" where
  "sym_world =
     \<lparr>requests_get = (\<lambda>url. Inr ''PK''),
      unzip_shp = (\<lambda>zip_bytes target_dir. Inr [target_dir @ ''/ice.shp'']),
      read_file = (\<lambda>p. Inr \<lparr>crs = None, rows = [(0, Some (Raw False False)), (1, None)]\<rparr>),
      to_file = (\<lambda>p g. None),
      to_parquet = (\<lambda>p df. None),
      shutil_copy = (\<lambda>src dst. None),
      geos = sym_lib,
      make_valid = Some sym_make_valid,
      str_of_cell = (\<lambda>v. ''?'')\<rparr>"

definition sym_config :: config where
  "sym_config =
     \<lparr>PARQUET_PATH = ''geojson_assets.parquet'', OUTPUT_DIR = ''geojsons'',
      START_DATE = 739527, END_DATE = 739527,
      ASSET_BASE_URL_GEOJSON = ''http://127.0.0.1:9091/geojsons'', USNIC_PREFIX = ''30''\<rparr>"

definition empty_fs :: "(nat, sym_geom, int) fs" where
  "empty_fs = \<lparr>geojsons = Map.empty, parquet = None, public_copy = None, stdout = []\<rparr>"

text \<open>A library whose geometries are their own bounding boxes, all valid and non-empty.\<close>

definition bounds_lib :: "(int \<times> int \<times> int \<times> int, int) shapely" where
  "bounds_lib =
     \<lparr>geom_is_valid = (\<lambda>g. True),
      geom_is_empty = (\<lambda>g. False),
      geom_buffer0 = Inr,
      geom_transform = (\<lambda>s t. Inr),
      geom_bounds = (\<lambda>g. g),
      geom_ring_error = LibraryError ''GEOSException''\<rparr>"

text \<open>What the run in this world produces for 2025-10-03, starting without any file.\<close>

definition sym_gdf_ll :: "(nat, sym_geom) gdf" where
  "sym_gdf_ll =
     \<lparr>crs = Some 4326,
      rows = [(0, Some (MadeValid (Reprojected 3031 4326 (Raw False False))))]\<rparr>"

definition sym_row :: "int record_row" where
  "sym_row =
     [(''id'', Str ''USNIC_20251003''),
      (''datetime'', Timestamp 739527),
      (''href'', Str ''http://127.0.0.1:9091/geojsons/USNIC_20251003.geojson''),
      (''geometry'',
         Geometry (Polygon [(Some 20, Some 40), (Some 20, Some 50),
                            (Some 10, Some 50), (Some 10, Some 40)]))]"

definition sym_catalog :: "int dataframe" where
  "sym_catalog =
     \<lparr>columns = [''id'', ''datetime'', ''href'', ''geometry''], index = [0],
      data = [sym_row]\<rparr>"

definition sym_saved :: "(nat, sym_geom, int) fs" where
  "sym_saved =
     \<lparr>geojsons = [''geojsons/USNIC_20251003.geojson'' \<mapsto> sym_gdf_ll],
      parquet = Some (Table sym_catalog),
      public_copy = None,
      stdout =
        [Fetching 739527 739527 ''30'',
         Download ''https://usicecenter.gov/File/DownloadArchive?prd=3010032025'',
         Saved 1 ''geojson_assets.parquet'']\<rparr>"

text \<open>The same world, but for a copy that raises.\<close>

definition copy_fails_world :: "(nat, sym_geom, int) world" where
  "copy_fails_world =
     sym_world\<lparr>shutil_copy := \<lambda>src dst. Some (LibraryError ''SameFileError'')\<rparr>"

definition sym_done :: "(nat, sym_geom, int) fs" where
  "sym_done =
     sym_saved
       \<lparr>public_copy := Some (Table sym_catalog),
        stdout := stdout sym_saved @ [Copying ''geojson_assets.parquet'' ''geojsons'']\<rparr>"

section \<open>Properties\<close>

subsection \<open>The calendar\<close>



lemma divmod_int:
  fixes a q r k :: int
  assumes "a = k * q + r" "0 \<le> r" "r < k"
  shows "a div k = q" and "a mod k = r"
  using assms by (auto intro: int_div_pos_eq int_mod_pos_eq)

lemma year_decompose:
  fixes Y :: int
  assumes "0 \<le> Y"
  obtains a b c e where "Y = 400 * a + 100 * b + 4 * c + e"
    and "0 \<le> a" "0 \<le> b" "b \<le> 3" "0 \<le> c" "c \<le> 24" "0 \<le> e" "e \<le> 3"
proof -
  define t where "t = Y mod 400"
  define u where "u = t mod 100"
  have t: "0 \<le> t" "t < 400" by (simp_all add: t_def)
  have u: "0 \<le> u" "u < 100" by (simp_all add: u_def)
  have 1: "Y = 400 * (Y div 400) + t" by (simp add: t_def)
  have 2: "t = 100 * (t div 100) + u" by (simp add: u_def)
  have 3: "u = 4 * (u div 4) + u mod 4" by simp
  have a: "0 \<le> Y div 400" using assms by (simp add: pos_imp_zdiv_nonneg_iff)
  have b: "0 \<le> t div 100" "t div 100 \<le> 3" using t by arith+
  have c: "0 \<le> u div 4" "u div 4 \<le> 24" using u by arith+
  have e: "0 \<le> u mod 4" "u mod 4 \<le> 3" by simp_all
  have "Y = 400 * (Y div 400) + 100 * (t div 100) + 4 * (u div 4) + u mod 4"
    using 1 2 3 by linarith
  then show thesis using a b c e that by blast
qed

lemma leap_decomposed:
  fixes a b c e :: int
  assumes "0 \<le> a" "0 \<le> b" "b \<le> 3" "0 \<le> c" "c \<le> 24" "0 \<le> e" "e \<le> 3"
  shows "is_leap (400 * a + 100 * b + 4 * c + e + 1) = (e = 3 \<and> (c \<noteq> 24 \<or> b = 3))"
proof -
  let ?y = "400 * a + 100 * b + 4 * c + e + 1"
  have m4: "?y mod 4 = (e + 1) mod 4"
  proof -
    have "?y = (e + 1) + (100 * a + 25 * b + c) * 4" by simp
    then show ?thesis by (metis mod_mult_self1)
  qed
  have m100: "?y mod 100 = (4 * c + e + 1) mod 100"
  proof -
    have "?y = (4 * c + e + 1) + (4 * a + b) * 100" by simp
    then show ?thesis by (metis mod_mult_self1)
  qed
  have m400: "?y mod 400 = (100 * b + 4 * c + e + 1) mod 400"
  proof -
    have "?y = (100 * b + 4 * c + e + 1) + a * 400" by simp
    then show ?thesis by (metis mod_mult_self1)
  qed
  have l4: "((e + 1) mod 4 = 0) = (e = 3)" using assms(6,7) by arith
  have l100: "((4 * c + e + 1) mod 100 = 0) = (c = 24 \<and> e = 3)"
  proof -
    define v where "v = 4 * c + e + 1"
    have "1 \<le> v" "v \<le> 100" using assms by (simp_all add: v_def)
    then have "(v mod 100 = 0) = (v = 100)" by arith
    moreover have "(v = 100) = (c = 24 \<and> e = 3)" using assms unfolding v_def by arith
    ultimately show ?thesis by (simp add: v_def)
  qed
  have l400: "((100 * b + 4 * c + e + 1) mod 400 = 0) = (b = 3 \<and> c = 24 \<and> e = 3)"
  proof -
    define v where "v = 100 * b + 4 * c + e + 1"
    have "1 \<le> v" "v \<le> 400" using assms by (simp_all add: v_def)
    then have "(v mod 400 = 0) = (v = 400)" by arith
    moreover have "(v = 400) = (b = 3 \<and> c = 24 \<and> e = 3)" using assms unfolding v_def by arith
    ultimately show ?thesis by (simp add: v_def)
  qed
  show ?thesis unfolding is_leap_def m4 m100 m400 l4 l100 l400 by auto
qed

lemma dby_decomposed:
  fixes a b c e :: int
  assumes "0 \<le> a" "0 \<le> b" "b \<le> 3" "0 \<le> c" "c \<le> 24" "0 \<le> e" "e \<le> 3"
  shows "days_before_year (400 * a + 100 * b + 4 * c + e + 1)
           = 146097 * a + 36524 * b + 1461 * c + 365 * e"
proof -
  let ?Y = "400 * a + 100 * b + 4 * c + e"
  have d4: "?Y div 4 = 100 * a + 25 * b + c"
    by (rule divmod_int(1)[where r = e]) (use assms in simp_all)
  have d100: "?Y div 100 = 4 * a + b"
    by (rule divmod_int(1)[where r = "4 * c + e"]) (use assms in simp_all)
  have d400: "?Y div 400 = a"
    by (rule divmod_int(1)[where r = "100 * b + 4 * c + e"]) (use assms in simp_all)
  show ?thesis
    unfolding days_before_year_def Let_def using d4 d100 d400 by simp
qed



lemma ord2ymd_unfold:
  "ord2ymd n0 =
     (let n = n0 - 1;
          n400 = n div 146097; n = n mod 146097;
          n100 = n div 36524; n = n mod 36524;
          n4 = n div 1461; n = n mod 1461;
          n1 = n div 365; n = n mod 365;
          year = n400 * 400 + 1 + n100 * 100 + n4 * 4 + n1
      in if n1 = 4 \<or> n100 = 4 then (year - 1, 12, 31)
         else ord2ymd_tail year (n1 = 3 \<and> (n4 \<noteq> 24 \<or> n100 = 3)) n)"
  by (simp add: ord2ymd_def ord2ymd_tail_def Let_def)

lemma est_month:
  fixes x m :: int
  shows "32 * m \<le> x \<Longrightarrow> x < 32 * m + 64 \<Longrightarrow> x div 32 = m \<or> x div 32 = m + 1"
  by arith

lemma month_cases:
  fixes m :: int
  assumes "1 \<le> m" "m \<le> 12"
  obtains "m = 1" | "m = 2" | "m = 3" | "m = 4" | "m = 5" | "m = 6" | "m = 7" | "m = 8"
    | "m = 9" | "m = 10" | "m = 11" | "m = 12"
proof -
  have "m = 1 \<or> m = 2 \<or> m = 3 \<or> m = 4 \<or> m = 5 \<or> m = 6 \<or> m = 7 \<or> m = 8
    \<or> m = 9 \<or> m = 10 \<or> m = 11 \<or> m = 12"
    using assms by presburger
  then show thesis using that by blast
qed

lemma month_tail:
  assumes m: "1 \<le> m" "m \<le> 12"
    and d: "1 \<le> d" "d \<le> (if m = 2 \<and> leap then 29 else DAYS_IN_MONTH ! nat m)"
    and r: "r = DAYS_BEFORE_MONTH ! nat m + (if m > 2 \<and> leap then 1 else 0) + d - 1"
  shows "ord2ymd_tail y leap r = (y, m, d)"
  using m
proof (cases m rule: month_cases)
  case 1
  with d r have "32 * 1 \<le> r + 50" "r + 50 < 32 * 1 + 64"
    by (simp_all add: DAYS_IN_MONTH_def DAYS_BEFORE_MONTH_def split: if_splits)
  then have "(r + 50) div 32 = 1 \<or> (r + 50) div 32 = 1 + 1" by (rule est_month)
  with 1 d r show ?thesis
    by (cases leap; elim disjE;
        simp add: ord2ymd_tail_def DAYS_IN_MONTH_def DAYS_BEFORE_MONTH_def Let_def)
next
  case 2
  with d r have "32 * 2 \<le> r + 50" "r + 50 < 32 * 2 + 64"
    by (simp_all add: DAYS_IN_MONTH_def DAYS_BEFORE_MONTH_def split: if_splits)
  then have "(r + 50) div 32 = 2 \<or> (r + 50) div 32 = 2 + 1" by (rule est_month)
  with 2 d r show ?thesis
    by (cases leap; elim disjE;
        simp add: ord2ymd_tail_def DAYS_IN_MONTH_def DAYS_BEFORE_MONTH_def Let_def)
next
  case 3
  with d r have "32 * 3 \<le> r + 50" "r + 50 < 32 * 3 + 64"
    by (simp_all add: DAYS_IN_MONTH_def DAYS_BEFORE_MONTH_def split: if_splits)
  then have "(r + 50) div 32 = 3 \<or> (r + 50) div 32 = 3 + 1" by (rule est_month)
  with 3 d r show ?thesis
    by (cases leap; elim disjE;
        simp add: ord2ymd_tail_def DAYS_IN_MONTH_def DAYS_BEFORE_MONTH_def Let_def)
next
  case 4
  with d r have "32 * 4 \<le> r + 50" "r + 50 < 32 * 4 + 64"
    by (simp_all add: DAYS_IN_MONTH_def DAYS_BEFORE_MONTH_def split: if_splits)
  then have "(r + 50) div 32 = 4 \<or> (r + 50) div 32 = 4 + 1" by (rule est_month)
  with 4 d r show ?thesis
    by (cases leap; elim disjE;
        simp add: ord2ymd_tail_def DAYS_IN_MONTH_def DAYS_BEFORE_MONTH_def Let_def)
next
  case 5
  with d r have "32 * 5 \<le> r + 50" "r + 50 < 32 * 5 + 64"
    by (simp_all add: DAYS_IN_MONTH_def DAYS_BEFORE_MONTH_def split: if_splits)
  then have "(r + 50) div 32 = 5 \<or> (r + 50) div 32 = 5 + 1" by (rule est_month)
  with 5 d r show ?thesis
    by (cases leap; elim disjE;
        simp add: ord2ymd_tail_def DAYS_IN_MONTH_def DAYS_BEFORE_MONTH_def Let_def)
next
  case 6
  with d r have "32 * 6 \<le> r + 50" "r + 50 < 32 * 6 + 64"
    by (simp_all add: DAYS_IN_MONTH_def DAYS_BEFORE_MONTH_def split: if_splits)
  then have "(r + 50) div 32 = 6 \<or> (r + 50) div 32 = 6 + 1" by (rule est_month)
  with 6 d r show ?thesis
    by (cases leap; elim disjE;
        simp add: ord2ymd_tail_def DAYS_IN_MONTH_def DAYS_BEFORE_MONTH_def Let_def)
next
  case 7
  with d r have "32 * 7 \<le> r + 50" "r + 50 < 32 * 7 + 64"
    by (simp_all add: DAYS_IN_MONTH_def DAYS_BEFORE_MONTH_def split: if_splits)
  then have "(r + 50) div 32 = 7 \<or> (r + 50) div 32 = 7 + 1" by (rule est_month)
  with 7 d r show ?thesis
    by (cases leap; elim disjE;
        simp add: ord2ymd_tail_def DAYS_IN_MONTH_def DAYS_BEFORE_MONTH_def Let_def)
next
  case 8
  with d r have "32 * 8 \<le> r + 50" "r + 50 < 32 * 8 + 64"
    by (simp_all add: DAYS_IN_MONTH_def DAYS_BEFORE_MONTH_def split: if_splits)
  then have "(r + 50) div 32 = 8 \<or> (r + 50) div 32 = 8 + 1" by (rule est_month)
  with 8 d r show ?thesis
    by (cases leap; elim disjE;
        simp add: ord2ymd_tail_def DAYS_IN_MONTH_def DAYS_BEFORE_MONTH_def Let_def)
next
  case 9
  with d r have "32 * 9 \<le> r + 50" "r + 50 < 32 * 9 + 64"
    by (simp_all add: DAYS_IN_MONTH_def DAYS_BEFORE_MONTH_def split: if_splits)
  then have "(r + 50) div 32 = 9 \<or> (r + 50) div 32 = 9 + 1" by (rule est_month)
  with 9 d r show ?thesis
    by (cases leap; elim disjE;
        simp add: ord2ymd_tail_def DAYS_IN_MONTH_def DAYS_BEFORE_MONTH_def Let_def)
next
  case 10
  with d r have "32 * 10 \<le> r + 50" "r + 50 < 32 * 10 + 64"
    by (simp_all add: DAYS_IN_MONTH_def DAYS_BEFORE_MONTH_def split: if_splits)
  then have "(r + 50) div 32 = 10 \<or> (r + 50) div 32 = 10 + 1" by (rule est_month)
  with 10 d r show ?thesis
    by (cases leap; elim disjE;
        simp add: ord2ymd_tail_def DAYS_IN_MONTH_def DAYS_BEFORE_MONTH_def Let_def)
next
  case 11
  with d r have "32 * 11 \<le> r + 50" "r + 50 < 32 * 11 + 64"
    by (simp_all add: DAYS_IN_MONTH_def DAYS_BEFORE_MONTH_def split: if_splits)
  then have "(r + 50) div 32 = 11 \<or> (r + 50) div 32 = 11 + 1" by (rule est_month)
  with 11 d r show ?thesis
    by (cases leap; elim disjE;
        simp add: ord2ymd_tail_def DAYS_IN_MONTH_def DAYS_BEFORE_MONTH_def Let_def)
next
  case 12
  with d r have "32 * 12 \<le> r + 50" "r + 50 < 32 * 12 + 64"
    by (simp_all add: DAYS_IN_MONTH_def DAYS_BEFORE_MONTH_def split: if_splits)
  then have "(r + 50) div 32 = 12 \<or> (r + 50) div 32 = 12 + 1" by (rule est_month)
  with 12 d r show ?thesis
    by (cases leap; elim disjE;
        simp add: ord2ymd_tail_def DAYS_IN_MONTH_def DAYS_BEFORE_MONTH_def Let_def)
qed


lemma day_of_year_bounds:
  assumes m: "1 \<le> m" "m \<le> 12"
    and d: "1 \<le> d" "d \<le> (if m = 2 \<and> leap then 29 else DAYS_IN_MONTH ! nat m)"
    and r: "r = DAYS_BEFORE_MONTH ! nat m + (if m > 2 \<and> leap then 1 else 0) + d - 1"
  shows "0 \<le> r \<and> r \<le> 364 + (if leap then 1 else 0) \<and> (r = 365 \<longrightarrow> m = 12 \<and> d = 31)"
  using m
  by (cases m rule: month_cases)
     (use d r in \<open>simp_all add: DAYS_IN_MONTH_def DAYS_BEFORE_MONTH_def split: if_splits\<close>)


lemma ord2ymd_chain:
  fixes a b c e r :: int
  assumes n: "n0 - 1 = 146097 * a + R1"
    and R1: "R1 = 36524 * n100 + R2" "0 \<le> R2" "R2 < 36524" "0 \<le> n100" "n100 \<le> 4"
      "R1 < 146097"
    and R2: "R2 = 1461 * n4 + R3" "0 \<le> R3" "R3 < 1461" "0 \<le> n4"
    and R3: "R3 = 365 * n1 + R4" "0 \<le> R4" "R4 < 365" "0 \<le> n1"
  shows "ord2ymd n0 =
    (if n1 = 4 \<or> n100 = 4 then (a * 400 + 1 + n100 * 100 + n4 * 4 + n1 - 1, 12, 31)
     else ord2ymd_tail (a * 400 + 1 + n100 * 100 + n4 * 4 + n1)
            (n1 = 3 \<and> (n4 \<noteq> 24 \<or> n100 = 3)) R4)"
proof -
  have "0 \<le> R1" using R1 by simp
  have 1: "(n0 - 1) div 146097 = a" "(n0 - 1) mod 146097 = R1"
    using divmod_int[OF n \<open>0 \<le> R1\<close> \<open>R1 < 146097\<close>] by simp_all
  have 2: "R1 div 36524 = n100" "R1 mod 36524 = R2"
    using divmod_int[OF R1(1,2,3)] by simp_all
  have 3: "R2 div 1461 = n4" "R2 mod 1461 = R3"
    using divmod_int[OF R2(1,2,3)] by simp_all
  have 4: "R3 div 365 = n1" "R3 mod 365 = R4"
    using divmod_int[OF R3(1,2,3)] by simp_all
  show ?thesis
    unfolding ord2ymd_unfold Let_def 1 2 3 4 by (rule refl)
qed

lemma ord2ymd_ymd2ord:
  assumes v: "valid_ymd y m d"
  shows "ord2ymd (ymd2ord y m d) = (y, m, d)"
proof -
  from v have y: "1 \<le> y" "y \<le> 9999" and m: "1 \<le> m" "m \<le> 12"
    and d: "1 \<le> d" "d \<le> days_in_month y m"
    by (simp_all add: valid_ymd_def)
  from y have "0 \<le> y - 1" by simp
  then obtain a b c e where Y: "y - 1 = 400 * a + 100 * b + 4 * c + e"
    and bnd: "0 \<le> a" "0 \<le> b" "b \<le> 3" "0 \<le> c" "c \<le> 24" "0 \<le> e" "e \<le> 3"
    by (rule year_decompose)
  from Y have yeq: "y = 400 * a + 100 * b + 4 * c + e + 1" by simp
  define leap where "leap = is_leap y"
  have leap: "leap = (e = 3 \<and> (c \<noteq> 24 \<or> b = 3))"
    unfolding leap_def yeq using bnd by (rule leap_decomposed)
  have dby: "days_before_year y = 146097 * a + 36524 * b + 1461 * c + 365 * e"
    unfolding yeq using bnd by (rule dby_decomposed)
  define r where "r = days_before_month y m + d - 1"
  have d': "d \<le> (if m = 2 \<and> leap then 29 else DAYS_IN_MONTH ! nat m)"
    using d by (simp add: days_in_month_def leap_def)
  have r': "r = DAYS_BEFORE_MONTH ! nat m + (if m > 2 \<and> leap then 1 else 0) + d - 1"
    by (simp add: r_def days_before_month_def leap_def)
  from day_of_year_bounds[OF m d(1) d' r']
  have rb: "0 \<le> r" "r \<le> 364 + (if leap then 1 else 0)" "r = 365 \<Longrightarrow> m = 12 \<and> d = 31"
    by simp_all
  have n: "ymd2ord y m d - 1 = 146097 * a + (36524 * b + 1461 * c + 365 * e + r)"
    by (simp add: ymd2ord_def dby r_def)
  show ?thesis
  proof (cases "r = 365")
    case True
    with rb have md: "m = 12" "d = 31" and lp: leap by (auto split: if_splits)
    from lp leap have e3: "e = 3" and cb: "c \<noteq> 24 \<or> b = 3" by auto
    show ?thesis
    proof (cases "b = 3 \<and> c = 24")
      case True
      have "ord2ymd (ymd2ord y m d) =
        (if (0::int) = 4 \<or> (4::int) = 4 then (a * 400 + 1 + 4 * 100 + 0 * 4 + 0 - 1, 12, 31)
         else ord2ymd_tail (a * 400 + 1 + 4 * 100 + 0 * 4 + 0)
            ((0::int) = 3 \<and> ((0::int) \<noteq> 24 \<or> (4::int) = 3)) 0)"
        by (rule ord2ymd_chain[OF n, where ?R2.0 = 0 and ?R3.0 = 0])
           (use True e3 \<open>r = 365\<close> in simp_all)
      then show ?thesis using True e3 md yeq by simp
    next
      case False
      with cb bnd have c23: "c \<le> 23" by auto
      have "ord2ymd (ymd2ord y m d) =
        (if (4::int) = 4 \<or> b = 4 then (a * 400 + 1 + b * 100 + c * 4 + 4 - 1, 12, 31)
         else ord2ymd_tail (a * 400 + 1 + b * 100 + c * 4 + 4)
            ((4::int) = 3 \<and> (c \<noteq> 24 \<or> b = 3)) 0)"
        by (rule ord2ymd_chain[OF n, where ?R2.0 = "1461 * c + 1460" and ?R3.0 = 1460])
           (use c23 bnd e3 \<open>r = 365\<close> in simp_all)
      then show ?thesis using e3 md yeq by simp
    qed
  next
    case False
    with rb have r364: "0 \<le> r" "r \<le> 364" by (auto split: if_splits)
    have "ord2ymd (ymd2ord y m d) =
        (if e = 4 \<or> b = 4 then (a * 400 + 1 + b * 100 + c * 4 + e - 1, 12, 31)
         else ord2ymd_tail (a * 400 + 1 + b * 100 + c * 4 + e)
            (e = 3 \<and> (c \<noteq> 24 \<or> b = 3)) r)"
      by (rule ord2ymd_chain[OF n, where ?R2.0 = "1461 * c + 365 * e + r"
            and ?R3.0 = "365 * e + r"])
         (use bnd r364 in simp_all)
    also have "\<dots> = ord2ymd_tail y leap r"
    proof -
      have "a * 400 + 1 + b * 100 + c * 4 + e = y" using yeq by simp
      then show ?thesis using bnd leap by simp
    qed
    also have "\<dots> = (y, m, d)"
      using m d(1) d' r' by (rule month_tail)
    finally show ?thesis .
  qed
qed


subsection \<open>Dates yielded by \<open>date_iter\<close>\<close>

lemma date_iter_yield:
  "d1 \<le> MAXORDINAL \<Longrightarrow> 0 \<le> d \<Longrightarrow> fst (date_iter d d1) = [d..d1]"
proof (induction d d1 rule: date_iter.induct)
  case (1 d d1)
  show ?case
  proof (cases "d \<le> d1")
    case le: True
    show ?thesis
    proof (cases "d = MAXORDINAL")
      case True
      with "1.prems" le have "d1 = d" by simp
      moreover have "date_add_days d 1 = Inl OverflowError" using True
        by (simp add: date_add_days_def)
      ultimately show ?thesis by (subst date_iter.simps) simp
    next
      case False
      with "1.prems" le have a: "date_add_days d 1 = Inr (d + 1)"
        by (simp add: date_add_days_def)
      from "1.IH"[OF le a] "1.prems" le have "fst (date_iter (d + 1) d1) = [d + 1..d1]"
        by simp
      with le a show ?thesis
        by (subst date_iter.simps) (cases "date_iter (d + 1) d1", simp add: upto_rec1)
    qed
  next
    case False
    then show ?thesis by (subst date_iter.simps) simp
  qed
qed

lemma date_iter_end:
  "d1 \<le> MAXORDINAL \<Longrightarrow> 0 \<le> d \<Longrightarrow> d \<le> d1 \<Longrightarrow>
     snd (date_iter d d1) = (if d1 = MAXORDINAL then Some OverflowError else None)"
proof (induction d d1 rule: date_iter.induct)
  case (1 d d1)
  show ?case
  proof (cases "d = MAXORDINAL")
    case True
    with "1.prems" have "d1 = d" by simp
    moreover have "date_add_days d 1 = Inl OverflowError" using True
      by (simp add: date_add_days_def)
    ultimately show ?thesis using True by (subst date_iter.simps) simp
  next
    case False
    with "1.prems" have a: "date_add_days d 1 = Inr (d + 1)"
      by (simp add: date_add_days_def)
    show ?thesis
    proof (cases "d + 1 \<le> d1")
      case True
      from "1.IH"[OF "1.prems"(3) a] "1.prems" True
      have "snd (date_iter (d + 1) d1) = (if d1 = MAXORDINAL then Some OverflowError else None)"
        by simp
      with "1.prems" a show ?thesis
        by (subst date_iter.simps) (cases "date_iter (d + 1) d1", simp)
    next
      case False
      with "1.prems" have "d1 = d" by simp
      then have "date_iter (d + 1) d1 = ([], None)" by (subst date_iter.simps) simp
      with \<open>d1 = d\<close> \<open>d \<noteq> MAXORDINAL\<close> a show ?thesis
        by (subst date_iter.simps) simp
    qed
  qed
qed

text \<open>
  C9. For valid dates \<open>d0 \<le> d1\<close> the generator yields exactly \<open>d1 - d0 + 1\<close> dates,
  the first \<open>d0\<close>, the last \<open>d1\<close>, strictly ascending, each one day after the one
  before; equal dates yield the one date.
\<close>

theorem date_iter_inclusive_range:
  assumes "valid_date d0" and "valid_date d1" and "d0 \<le> d1"
  shows "length (fst (date_iter d0 d1)) = nat (d1 - d0 + 1)
       \<and> hd (fst (date_iter d0 d1)) = d0
       \<and> last (fst (date_iter d0 d1)) = d1
       \<and> sorted_wrt (<) (fst (date_iter d0 d1))
       \<and> (\<forall>i. Suc i < length (fst (date_iter d0 d1)) \<longrightarrow>
            fst (date_iter d0 d1) ! Suc i = fst (date_iter d0 d1) ! i + 1)
       \<and> (d0 = d1 \<longrightarrow> fst (date_iter d0 d1) = [d0])"
proof -
  from assms have y: "fst (date_iter d0 d1) = [d0..d1]"
    by (intro date_iter_yield) (simp_all add: valid_date_def)
  have "hd [d0..d1] = d0" using assms(3) by (simp add: upto_rec1)
  moreover have "last [d0..d1] = d1" using assms(3) by (simp add: upto_rec2)
  moreover have "\<forall>i. Suc i < length [d0..d1] \<longrightarrow> [d0..d1] ! Suc i = [d0..d1] ! i + 1"
  proof (intro allI impI)
    fix i assume "Suc i < length [d0..d1]"
    then have "d0 + int (Suc i) \<le> d1" "d0 + int i \<le> d1" by simp_all
    then show "[d0..d1] ! Suc i = [d0..d1] ! i + 1" by simp
  qed
  ultimately show ?thesis unfolding y by simp
qed

theorem date_iter_inclusive_range_witness:
  "valid_date 739527 \<and> valid_date 739530 \<and> (739527::int) \<le> 739530
   \<and> fst (date_iter 739527 739530) = [739527, 739528, 739529, 739530]
   \<and> length (fst (date_iter 739527 739530)) = 4"
proof -
  have v: "valid_date 739527" "valid_date 739530" "(739527::int) \<le> 739530"
    by (simp_all add: valid_date_def MAXORDINAL_def)
  have e: "fst (date_iter 739527 739530) = [739527, 739528, 739529, 739530]"
    by (simp add: date_iter.simps date_add_days_def MAXORDINAL_def)
  from date_iter_inclusive_range[OF v] v e show ?thesis by simp
qed

subsection \<open>Formatted fields\<close>

lemma digit_nth:
  "k < 10 \<Longrightarrow> digit_val (''0123456789'' ! k) = k \<and> is_digit (''0123456789'' ! k)"
proof -
  assume "k < 10"
  then have "k \<in> {0, 1, 2, 3, 4, 5, 6, 7, 8, 9}" by auto
  then show ?thesis by (auto simp: digit_val_def is_digit_def)
qed

lemma val10_snoc: "val10 (s @ [c]) = 10 * val10 s + digit_val c"
  by (simp add: val10_def)

lemma val10_digits10: "val10 (digits10 n) = n"
proof (induction n rule: digits10.induct)
  case (1 n)
  show ?case
  proof (cases "n < 10")
    case True
    then show ?thesis by (subst digits10.simps) (simp add: val10_def digit_nth)
  next
    case False
    then have "val10 (digits10 (n div 10)) = n div 10" by (rule "1.IH")
    with False show ?thesis
      by (subst digits10.simps) (simp add: val10_snoc digit_nth)
  qed
qed

lemma digits10_is_digit: "list_all is_digit (digits10 n)"
proof (induction n rule: digits10.induct)
  case (1 n)
  show ?case
  proof (cases "n < 10")
    case True
    then show ?thesis by (subst digits10.simps) (simp add: digit_nth)
  next
    case False
    then have "list_all is_digit (digits10 (n div 10))" by (rule "1.IH")
    with False show ?thesis by (subst digits10.simps) (simp add: digit_nth)
  qed
qed

lemma length_digits10: "0 < k \<Longrightarrow> n < 10 ^ k \<Longrightarrow> length (digits10 n) \<le> k"
proof (induction k arbitrary: n)
  case 0
  then show ?case by simp
next
  case (Suc k)
  show ?case
  proof (cases "n < 10")
    case True
    then show ?thesis by (subst digits10.simps) simp
  next
    case False
    with Suc.prems have k: "0 < k" by (cases k) simp_all
    from Suc.prems have "n div 10 < 10 ^ k" by (simp add: less_mult_imp_div_less mult.commute)
    with k have "length (digits10 (n div 10)) \<le> k" by (rule Suc.IH)
    with False show ?thesis by (subst digits10.simps) simp
  qed
qed

lemma val10_zeros: "val10 (replicate k (CHR ''0'') @ s) = val10 s"
proof -
  have "foldl (\<lambda>acc c. 10 * acc + digit_val c) 0 (replicate k (CHR ''0'')) = 0"
    by (induction k) (simp_all add: digit_val_def)
  then show ?thesis by (simp add: val10_def)
qed

lemma zpad_field:
  assumes "0 \<le> n" and "nat n < 10 ^ w" and "0 < w"
  shows "length (zpad w n) = w" and "val10 (zpad w n) = nat n"
    and "list_all is_digit (zpad w n)"
proof -
  have "length (digits10 (nat n)) \<le> w" using assms(3,2) by (rule length_digits10)
  then show "length (zpad w n) = w" by (simp add: zpad_def Let_def)
  show "val10 (zpad w n) = nat n" by (simp add: zpad_def Let_def val10_zeros val10_digits10)
  have "is_digit (CHR ''0'')" by (simp add: is_digit_def)
  with digits10_is_digit[of "nat n"] show "list_all is_digit (zpad w n)"
    by (auto simp: zpad_def Let_def list_all_iff)
qed

lemma days_in_month_le: "1 \<le> m \<Longrightarrow> m \<le> 12 \<Longrightarrow> days_in_month y m \<le> 31"
  by (cases m rule: month_cases) (simp_all add: days_in_month_def DAYS_IN_MONTH_def)

text \<open>
  C10. For every calendar date and prefix the URL is the fixed address, then the prefix,
  then the month in two digits, the day in two digits and the year in four digits; the
  function reads nothing but its arguments.
\<close>

theorem usnic_zip_url_mmddyyyy:
  assumes "valid_ymd y m d"
  shows "usnic_zip_url cfg (ymd2ord y m d) =
           ''https://usicecenter.gov/File/DownloadArchive?prd='' @ USNIC_PREFIX cfg
             @ zpad 2 m @ zpad 2 d @ zpad 4 y
       \<and> length (zpad 2 m) = 2 \<and> length (zpad 2 d) = 2 \<and> length (zpad 4 y) = 4
       \<and> list_all is_digit (zpad 2 m @ zpad 2 d @ zpad 4 y)
       \<and> val10 (zpad 2 m) = nat m \<and> val10 (zpad 2 d) = nat d \<and> val10 (zpad 4 y) = nat y"
proof -
  from assms have r: "1 \<le> y" "y \<le> 9999" "1 \<le> m" "m \<le> 12" "1 \<le> d"
    "d \<le> days_in_month y m"
    by (simp_all add: valid_ymd_def)
  with days_in_month_le[of m y] have d31: "d \<le> 31" by simp
  have "ord2ymd (ymd2ord y m d) = (y, m, d)" using assms by (rule ord2ymd_ymd2ord)
  then have url: "usnic_zip_url cfg (ymd2ord y m d) =
           ''https://usicecenter.gov/File/DownloadArchive?prd='' @ USNIC_PREFIX cfg
             @ zpad 2 m @ zpad 2 d @ zpad 4 y"
    by (simp add: usnic_zip_url_def strftime_def)
  have fm: "length (zpad 2 m) = 2" "val10 (zpad 2 m) = nat m" "list_all is_digit (zpad 2 m)"
    by (rule zpad_field; use r in simp)+
  have fd: "length (zpad 2 d) = 2" "val10 (zpad 2 d) = nat d" "list_all is_digit (zpad 2 d)"
    by (rule zpad_field; use r d31 in simp)+
  have fy: "length (zpad 4 y) = 4" "val10 (zpad 4 y) = nat y" "list_all is_digit (zpad 4 y)"
    by (rule zpad_field; use r in simp)+
  show ?thesis using url fm fd fy by simp
qed

theorem usnic_zip_url_mmddyyyy_witness:
  "valid_ymd 2025 10 3
   \<and> usnic_zip_url \<lparr>PARQUET_PATH = ''geojson_assets.parquet'', OUTPUT_DIR = ''geojsons'',
        START_DATE = ymd2ord 2025 9 1, END_DATE = ymd2ord 2025 9 30,
        ASSET_BASE_URL_GEOJSON = ''http://127.0.0.1:9091/geojsons'', USNIC_PREFIX = ''30''\<rparr>
       (ymd2ord 2025 10 3)
     = ''https://usicecenter.gov/File/DownloadArchive?prd=3010032025''"
proof -
  have v: "valid_ymd 2025 10 3"
    by (simp add: valid_ymd_def days_in_month_def DAYS_IN_MONTH_def)
  have z: "zpad 2 10 = ''10''" "zpad 2 3 = ''03''" "zpad 4 2025 = ''2025''"
    by (simp_all add: zpad_def Let_def digits10.simps)
  from usnic_zip_url_mmddyyyy[OF v] v z show ?thesis by simp
qed




subsection \<open>Normalization\<close>

lemma list_all2_in_right:
  "list_all2 P xs ys \<Longrightarrow> y \<in> set ys \<Longrightarrow> \<exists>x \<in> set xs. P x y"
  by (induction rule: list_all2_induct) auto

lemma apply_geometry_Inr:
  "apply_geometry f rs = Inr rs' \<Longrightarrow> list_all2 (row_step f) rs rs'"
proof (induction rs arbitrary: rs')
  case Nil
  then show ?case by simp
next
  case (Cons r rs)
  obtain a g where r: "r = (a, g)" by (cases r)
  from Cons.prems r obtain g' rs0 where g': "f g = Inr g'"
    and rs0: "apply_geometry f rs = Inr rs0" and eq: "rs' = (a, g') # rs0"
    by (auto split: sum.splits)
  from rs0 have "list_all2 (row_step f) rs rs0" by (rule Cons.IH)
  moreover from g' have "row_step f (a, g) (a, g')" by (simp add: row_step_def)
  ultimately show ?case unfolding eq r by simp
qed

lemma apply_geometry_total:
  assumes "\<And>g. \<exists>g'. f g = Inr g'"
  shows "\<exists>rs'. apply_geometry f rs = Inr rs'"
proof (induction rs)
  case Nil
  then show ?case by simp
next
  case (Cons r rs)
  obtain a g where r: "r = (a, g)" by (cases r)
  from assms obtain g' where "f g = Inr g'" by blast
  moreover from Cons.IH obtain rs' where "apply_geometry f rs = Inr rs'" by blast
  ultimately show ?case by (simp add: r)
qed

lemma apply_geometry_Inr_id: "apply_geometry Inr rs = Inr rs"
  by (induction rs) auto

lemma to_geojson_ll_Inr:
  assumes "to_geojson_ll lib mv g = Inr out"
  obtains rs1 rs2 rs3 where
    "list_all2 (row_step (reproject lib (case crs g of None \<Rightarrow> 3031 | Some c \<Rightarrow> c) 4326))
       (rows g) rs1"
    and "case mv of None \<Rightarrow> rs2 = rs1 | Some f \<Rightarrow> list_all2 (row_step f) rs1 rs2"
    and "list_all2 (row_step (buffer_if_invalid lib)) rs2 rs3"
    and "out = \<lparr>crs = Some 4326, rows = filter (keep_row lib) rs3\<rparr>"
proof -
  define g0 where "g0 = (if crs g = None then g\<lparr>crs := Some 3031\<rparr> else g)"
  define src where "src = (case crs g of None \<Rightarrow> 3031 | Some c \<Rightarrow> c)"
  have c0: "crs g0 = Some src" and r0: "rows g0 = rows g"
    by (auto simp: g0_def src_def split: option.splits)
  from assms obtain gdf_ll rs2 rs3 where
    1: "to_crs lib g0 4326 = Inr gdf_ll"
    and 2: "(case mv of None \<Rightarrow> Inr (rows gdf_ll) | Some f \<Rightarrow> apply_geometry f (rows gdf_ll))
              = Inr rs2"
    and 3: "apply_geometry (buffer_if_invalid lib) rs2 = Inr rs3"
    and 4: "out = gdf_ll\<lparr>rows := filter (keep_row lib) rs3\<rparr>"
    unfolding to_geojson_ll_def Let_def g0_def[symmetric]
    by (auto split: sum.splits)
  from 1 c0 r0 obtain rs1 where 5: "apply_geometry (reproject lib src 4326) (rows g) = Inr rs1"
    and 6: "gdf_ll = \<lparr>crs = Some 4326, rows = rs1\<rparr>"
    by (auto simp: to_crs_def split: sum.splits)
  have a: "list_all2 (row_step (reproject lib src 4326)) (rows g) rs1"
    using 5 by (rule apply_geometry_Inr)
  have b: "case mv of None \<Rightarrow> rs2 = rs1 | Some f \<Rightarrow> list_all2 (row_step f) rs1 rs2"
    using 2 6 by (auto split: option.splits dest: apply_geometry_Inr)
  have c: "list_all2 (row_step (buffer_if_invalid lib)) rs2 rs3"
    using 3 by (rule apply_geometry_Inr)
  have d: "out = \<lparr>crs = Some 4326, rows = filter (keep_row lib) rs3\<rparr>"
    using 4 6 by simp
  show thesis using that[OF a[unfolded src_def] b c d] .
qed

lemma buffer_if_invalid_valid:
  assumes contract: "\<forall>x x'. geom_buffer0 lib x = Inr x' \<longrightarrow> geom_is_valid lib x'"
    and "buffer_if_invalid lib geom = Inr (Some x)"
  shows "geom_is_valid lib x"
  using assms by (auto simp: buffer_if_invalid_def split: option.splits if_splits sum.splits)

lemma to_geojson_ll_total:
  assumes t: "\<forall>s t x. \<exists>x'. geom_transform lib s t x = Inr x'"
    and b: "\<forall>x. \<exists>x'. geom_buffer0 lib x = Inr x'"
    and m: "\<forall>f. mv = Some f \<longrightarrow> (\<forall>geom. \<exists>geom'. f geom = Inr geom')"
  shows "\<exists>out. to_geojson_ll lib mv g = Inr out"
proof -
  define g0 where "g0 = (if crs g = None then g\<lparr>crs := Some 3031\<rparr> else g)"
  obtain src where c0: "crs g0 = Some src" by (cases "crs g") (auto simp: g0_def)
  have "\<And>geom. \<exists>geom'. reproject lib src 4326 geom = Inr geom'"
  proof -
    fix geom show "\<exists>geom'. reproject lib src 4326 geom = Inr geom'"
    proof (cases geom)
      case None
      then show ?thesis by (simp add: reproject_def)
    next
      case (Some x)
      from t obtain x' where "geom_transform lib src 4326 x = Inr x'" by blast
      with Some show ?thesis by (simp add: reproject_def)
    qed
  qed
  then obtain rs1 where 1: "apply_geometry (reproject lib src 4326) (rows g0) = Inr rs1"
    using apply_geometry_total by blast
  have "\<exists>rs2. (case mv of None \<Rightarrow> Inr rs1 | Some f \<Rightarrow> apply_geometry f rs1) = Inr rs2"
  proof (cases mv)
    case None
    then show ?thesis by simp
  next
    case (Some f)
    with m have "\<And>geom. \<exists>geom'. f geom = Inr geom'" by blast
    then show ?thesis using Some apply_geometry_total[of f rs1] by simp
  qed
  then obtain rs2 where 2: "(case mv of None \<Rightarrow> Inr rs1 | Some f \<Rightarrow> apply_geometry f rs1) = Inr rs2"
    by blast
  have "\<And>geom. \<exists>geom'. buffer_if_invalid lib geom = Inr geom'"
  proof -
    fix geom show "\<exists>geom'. buffer_if_invalid lib geom = Inr geom'"
    proof (cases geom)
      case None
      then show ?thesis by (simp add: buffer_if_invalid_def)
    next
      case (Some x)
      from b obtain x' where "geom_buffer0 lib x = Inr x'" by blast
      with Some show ?thesis by (simp add: buffer_if_invalid_def)
    qed
  qed
  then obtain rs3 where 3: "apply_geometry (buffer_if_invalid lib) rs2 = Inr rs3"
    using apply_geometry_total by blast
  show ?thesis
    unfolding to_geojson_ll_def Let_def g0_def[symmetric]
    using c0 1 2 3 by (cases mv) (simp_all add: to_crs_def)
qed

text \<open>
  C1. Whatever the library returns, a dataset that normalization returns is in EPSG:4326
  and each of its geometries is present, non-empty and valid (valid under the library's
  contract that a zero-distance buffer returns a valid geometry). Normalization raises
  only when a library call raises, and a result without rows makes the caller log the
  date and go on: no row, no file, no error.
\<close>

theorem to_geojson_ll_invariant:
  assumes contract:
    "\<forall>x x'. geom_buffer0 (geos w) x = Inr x' \<longrightarrow> geom_is_valid (geos w) x'"
  shows "(to_geojson_ll (geos w) (make_valid w) gdf_src = Inr out \<longrightarrow>
            crs out = Some 4326
          \<and> (\<forall>r \<in> set (rows out). \<exists>x. snd r = Some x \<and> geom_is_valid (geos w) x
                \<and> \<not> geom_is_empty (geos w) x))
       \<and> ((\<forall>s t x. \<exists>x'. geom_transform (geos w) s t x = Inr x')
            \<and> (\<forall>x. \<exists>x'. geom_buffer0 (geos w) x = Inr x')
            \<and> (\<forall>f. make_valid w = Some f \<longrightarrow> (\<forall>geom. \<exists>geom'. f geom = Inr geom'))
          \<longrightarrow> (\<exists>out'. to_geojson_ll (geos w) (make_valid w) gdf_src = Inr out'))
       \<and> (read_file w shp_path = Inr gdf_src
            \<and> \<not> (gdf_empty gdf_src \<or> list_all (\<lambda>r. snd r = None) (rows gdf_src))
            \<and> to_geojson_ll (geos w) (make_valid w) gdf_src = Inr out \<and> rows out = []
          \<longrightarrow> process_shapefile cfg w d item_id shp_path new_rows st
                = (Inr new_rows, print_msg (AllEmpty d) st))"
proof (intro conjI impI)
  assume ok: "to_geojson_ll (geos w) (make_valid w) gdf_src = Inr out"
  then obtain rs2 rs3 where
    3: "list_all2 (row_step (buffer_if_invalid (geos w))) rs2 rs3"
    and 4: "out = \<lparr>crs = Some 4326, rows = filter (keep_row (geos w)) rs3\<rparr>"
    by (rule to_geojson_ll_Inr)
  from 4 show "crs out = Some 4326" by simp
  show "\<forall>r \<in> set (rows out). \<exists>x. snd r = Some x \<and> geom_is_valid (geos w) x
          \<and> \<not> geom_is_empty (geos w) x"
  proof
    fix r assume "r \<in> set (rows out)"
    with 4 have r3: "r \<in> set rs3" and keep: "keep_row (geos w) r" by simp_all
    from keep obtain x where x: "snd r = Some x" and ne: "\<not> geom_is_empty (geos w) x"
      by (auto simp: keep_row_def split: option.splits)
    from list_all2_in_right[OF 3 r3]
    obtain r0 where "row_step (buffer_if_invalid (geos w)) r0 r" by blast
    with x have "buffer_if_invalid (geos w) (snd r0) = Inr (Some x)"
      by (simp add: row_step_def)
    with contract have "geom_is_valid (geos w) x" by (rule buffer_if_invalid_valid)
    with x ne show "\<exists>x. snd r = Some x \<and> geom_is_valid (geos w) x
          \<and> \<not> geom_is_empty (geos w) x" by blast
  qed
next
  assume "(\<forall>s t x. \<exists>x'. geom_transform (geos w) s t x = Inr x')
            \<and> (\<forall>x. \<exists>x'. geom_buffer0 (geos w) x = Inr x')
            \<and> (\<forall>f. make_valid w = Some f \<longrightarrow> (\<forall>geom. \<exists>geom'. f geom = Inr geom'))"
  then have "\<forall>s t x. \<exists>x'. geom_transform (geos w) s t x = Inr x'"
    and "\<forall>x. \<exists>x'. geom_buffer0 (geos w) x = Inr x'"
    and "\<forall>f. make_valid w = Some f \<longrightarrow> (\<forall>geom. \<exists>geom'. f geom = Inr geom')"
    by simp_all
  then show "\<exists>out'. to_geojson_ll (geos w) (make_valid w) gdf_src = Inr out'"
    by (rule to_geojson_ll_total)
next
  assume "read_file w shp_path = Inr gdf_src
            \<and> \<not> (gdf_empty gdf_src \<or> list_all (\<lambda>r. snd r = None) (rows gdf_src))
            \<and> to_geojson_ll (geos w) (make_valid w) gdf_src = Inr out \<and> rows out = []"
  then show "process_shapefile cfg w d item_id shp_path new_rows st
                = (Inr new_rows, print_msg (AllEmpty d) st)"
    by (simp add: process_shapefile_def gdf_empty_def)
qed

theorem to_geojson_ll_invariant_witness:
  "to_geojson_ll (geos sym_world) (make_valid sym_world)
       \<lparr>crs = None, rows = [(0::nat, Some (Raw False False)), (1, None)]\<rparr>
     = Inr \<lparr>crs = Some 4326,
            rows = [(0, Some (MadeValid (Reprojected 3031 4326 (Raw False False))))]\<rparr>
   \<and> geom_is_valid (geos sym_world) (MadeValid (Reprojected 3031 4326 (Raw False False)))
   \<and> \<not> geom_is_empty (geos sym_world) (MadeValid (Reprojected 3031 4326 (Raw False False)))
   \<and> to_geojson_ll (geos sym_world) (make_valid sym_world)
       \<lparr>crs = None, rows = [(0::nat, Some (Raw True True))]\<rparr> = Inr \<lparr>crs = Some 4326, rows = []\<rparr>
   \<and> process_shapefile sym_config
        (sym_world\<lparr>read_file := \<lambda>p. Inr \<lparr>crs = None, rows = [(0, Some (Raw True True))]\<rparr>\<rparr>)
        739527 ''USNIC_20251003'' ''ice.shp'' [] empty_fs
      = (Inr [], print_msg (AllEmpty 739527) empty_fs)"
proof -
  let ?src = "\<lparr>crs = None, rows = [(0::nat, Some (Raw False False)), (1, None)]\<rparr>"
  let ?out = "\<lparr>crs = Some 4326,
            rows = [(0::nat, Some (MadeValid (Reprojected 3031 4326 (Raw False False))))]\<rparr>"
  let ?src2 = "\<lparr>crs = None, rows = [(0::nat, Some (Raw True True))]\<rparr>"
  let ?out2 = "\<lparr>crs = Some 4326, rows = [] :: (nat \<times> sym_geom option) list\<rparr>"
  let ?w2 = "sym_world\<lparr>read_file := \<lambda>p. Inr ?src2\<rparr>"
  have c: "\<forall>x x'. geom_buffer0 (geos sym_world) x = Inr x' \<longrightarrow> geom_is_valid (geos sym_world) x'"
    by (auto simp: sym_world_def sym_lib_def)
  have c2: "\<forall>x x'. geom_buffer0 (geos ?w2) x = Inr x' \<longrightarrow> geom_is_valid (geos ?w2) x'"
    by (auto simp: sym_world_def sym_lib_def)
  have e1: "to_geojson_ll (geos sym_world) (make_valid sym_world) ?src = Inr ?out"
    by (simp add: to_geojson_ll_def to_crs_def reproject_def buffer_if_invalid_def keep_row_def
          sym_world_def sym_lib_def sym_make_valid_def)
  have e2: "to_geojson_ll (geos sym_world) (make_valid sym_world) ?src2 = Inr ?out2"
    by (simp add: to_geojson_ll_def to_crs_def reproject_def buffer_if_invalid_def keep_row_def
          sym_world_def sym_lib_def sym_make_valid_def)
  have e3: "to_geojson_ll (geos ?w2) (make_valid ?w2) ?src2 = Inr ?out2"
    using e2 by (simp add: sym_world_def)
  have r: "read_file ?w2 ''ice.shp'' = Inr ?src2" by simp
  have n: "\<not> (gdf_empty ?src2 \<or> list_all (\<lambda>r. snd r = None) (rows ?src2))"
    by (simp add: gdf_empty_def)
  from to_geojson_ll_invariant[OF c, of ?src ?out] e1
  have "\<forall>r \<in> set (rows ?out). \<exists>x. snd r = Some x \<and> geom_is_valid (geos sym_world) x
                \<and> \<not> geom_is_empty (geos sym_world) x"
    by blast
  then have v1: "geom_is_valid (geos sym_world) (MadeValid (Reprojected 3031 4326 (Raw False False)))"
    and v2: "\<not> geom_is_empty (geos sym_world) (MadeValid (Reprojected 3031 4326 (Raw False False)))"
    by simp_all
  from to_geojson_ll_invariant[OF c2, of ?src2 ?out2 "''ice.shp''" sym_config 739527
      "''USNIC_20251003''" "[]" empty_fs] r n e3
  have p: "process_shapefile sym_config ?w2 739527 ''USNIC_20251003'' ''ice.shp'' [] empty_fs
      = (Inr [], print_msg (AllEmpty 739527) empty_fs)"
    by simp
  show ?thesis by (intro conjI) (rule e1 v1 v2 e2 p)+
qed

subsection \<open>The repair step\<close>

text \<open>
  C2, as the code has it. With no \<open>make_valid\<close> imported the step is left out: the
  result is the one an identity in its place gives, nothing is printed and nothing is
  raised for it. With one imported, every row goes through reprojection, then through
  it, then through the zero-distance buffer when still invalid, and the rows with a
  present, non-empty geometry are kept.
\<close>

theorem make_valid_step:
  "to_geojson_ll lib None g = to_geojson_ll lib (Some Inr) g
   \<and> (to_geojson_ll lib (Some f) g = Inr out \<longrightarrow>
        (\<exists>rs1 rs2 rs3.
            list_all2 (row_step (reproject lib (case crs g of None \<Rightarrow> 3031 | Some c \<Rightarrow> c) 4326))
              (rows g) rs1
          \<and> list_all2 (row_step f) rs1 rs2
          \<and> list_all2 (row_step (buffer_if_invalid lib)) rs2 rs3
          \<and> out = \<lparr>crs = Some 4326, rows = filter (keep_row lib) rs3\<rparr>))"
proof (intro conjI impI)
  show "to_geojson_ll lib None g = to_geojson_ll lib (Some Inr) g"
    unfolding to_geojson_ll_def option.case apply_geometry_Inr_id by (rule refl)
next
  assume "to_geojson_ll lib (Some f) g = Inr out"
  then obtain rs1 rs2 rs3 where
    "list_all2 (row_step (reproject lib (case crs g of None \<Rightarrow> 3031 | Some c \<Rightarrow> c) 4326))
       (rows g) rs1"
    and "case Some f of None \<Rightarrow> rs2 = rs1 | Some f \<Rightarrow> list_all2 (row_step f) rs1 rs2"
    and "list_all2 (row_step (buffer_if_invalid lib)) rs2 rs3"
    and "out = \<lparr>crs = Some 4326, rows = filter (keep_row lib) rs3\<rparr>"
    by (rule to_geojson_ll_Inr)
  then show "\<exists>rs1 rs2 rs3.
            list_all2 (row_step (reproject lib (case crs g of None \<Rightarrow> 3031 | Some c \<Rightarrow> c) 4326))
              (rows g) rs1
          \<and> list_all2 (row_step f) rs1 rs2
          \<and> list_all2 (row_step (buffer_if_invalid lib)) rs2 rs3
          \<and> out = \<lparr>crs = Some 4326, rows = filter (keep_row lib) rs3\<rparr>"
    by auto
qed

theorem make_valid_step_witness:
  "to_geojson_ll sym_lib (Some sym_make_valid)
       \<lparr>crs = Some 3031, rows = [(0::nat, Some (Raw True False)), (1, Some (Raw False False))]\<rparr>
     = Inr \<lparr>crs = Some 4326,
            rows = [(0, Some (MadeValid (Reprojected 3031 4326 (Raw True False)))),
                    (1, Some (MadeValid (Reprojected 3031 4326 (Raw False False))))]\<rparr>
   \<and> (\<exists>rs1 rs2 rs3.
          list_all2 (row_step (reproject sym_lib 3031 4326))
            [(0::nat, Some (Raw True False)), (1, Some (Raw False False))] rs1
        \<and> list_all2 (row_step sym_make_valid) rs1 rs2
        \<and> list_all2 (row_step (buffer_if_invalid sym_lib)) rs2 rs3
        \<and> [(0, Some (MadeValid (Reprojected 3031 4326 (Raw True False)))),
            (1, Some (MadeValid (Reprojected 3031 4326 (Raw False False))))]
           = filter (keep_row sym_lib) rs3)"
proof -
  let ?src = "\<lparr>crs = Some 3031,
      rows = [(0::nat, Some (Raw True False)), (1, Some (Raw False False))]\<rparr>"
  let ?out = "\<lparr>crs = Some 4326,
            rows = [(0::nat, Some (MadeValid (Reprojected 3031 4326 (Raw True False)))),
                    (1, Some (MadeValid (Reprojected 3031 4326 (Raw False False))))]\<rparr>"
  have e: "to_geojson_ll sym_lib (Some sym_make_valid) ?src = Inr ?out"
    by (simp add: to_geojson_ll_def to_crs_def reproject_def buffer_if_invalid_def keep_row_def
          sym_lib_def sym_make_valid_def)
  from make_valid_step[of sym_lib ?src sym_make_valid ?out] e show ?thesis by simp
qed

theorem make_valid_skipped_counterexample:
  "to_geojson_ll sym_lib None
       \<lparr>crs = Some 3031, rows = [(0::nat, Some (Raw True False)), (1, Some (Raw False False))]\<rparr>
     = Inr \<lparr>crs = Some 4326,
            rows = [(0, Some (Reprojected 3031 4326 (Raw True False))),
                    (1, Some (Buffered (Reprojected 3031 4326 (Raw False False))))]\<rparr>
   \<and> \<not> repair_applied (Reprojected 3031 4326 (Raw True False))"
  by (simp add: to_geojson_ll_def to_crs_def reproject_def buffer_if_invalid_def keep_row_def
        sym_lib_def)

subsection \<open>The envelope\<close>

lemma map_filter_id_Some: "List.map_filter id (map Some xs) = xs"
  by (induction xs) (simp_all add: List.map_filter_simps)

lemma nanmin_Some: "xs \<noteq> [] \<Longrightarrow> nanmin (map Some xs) = Some (Min (set xs))"
  by (cases xs) (simp_all add: nanmin_def map_filter_id_Some Min.set_eq_fold del: set_simps)

lemma nanmax_Some: "xs \<noteq> [] \<Longrightarrow> nanmax (map Some xs) = Some (Max (set xs))"
  by (cases xs) (simp_all add: nanmax_def map_filter_id_Some Max.set_eq_fold del: set_simps)

lemma nanmin_Some_map:
  "xs \<noteq> [] \<Longrightarrow> nanmin (map (Some \<circ> f) xs) = Some (Min (set (map f xs)))"
  using nanmin_Some[of "map f xs"] by simp

lemma nanmax_Some_map:
  "xs \<noteq> [] \<Longrightarrow> nanmax (map (Some \<circ> f) xs) = Some (Max (set (map f xs)))"
  using nanmax_Some[of "map f xs"] by simp

lemma total_bounds_Some:
  assumes "map (\<lambda>r. row_bounds lib (snd r)) (rows g) = map Some bs" and "bs \<noteq> []"
  shows "total_bounds lib g =
           (Some (Min (set (map (\<lambda>(x0, y0, x1, y1). x0) bs))),
            Some (Min (set (map (\<lambda>(x0, y0, x1, y1). y0) bs))),
            Some (Max (set (map (\<lambda>(x0, y0, x1, y1). x1) bs))),
            Some (Max (set (map (\<lambda>(x0, y0, x1, y1). y1) bs))))"
proof -
  from assms have ne: "rows g \<noteq> []" by auto
  have m: "\<And>f. map (map_option f) (map Some bs) = map Some (map f bs)" by simp
  show ?thesis
    unfolding total_bounds_def Let_def assms(1) m
    using ne assms(2) by (simp add: nanmin_Some_map nanmax_Some_map del: set_map)
qed

lemma keep_row_bounds:
  "keep_row lib r \<Longrightarrow> row_bounds lib (snd r) = Some (geom_bounds lib (the (snd r)))"
  by (auto simp: keep_row_def row_bounds_def split: option.splits)

lemma bbox_envelope_kept:
  assumes "rows g \<noteq> []" and "list_all (keep_row lib) (rows g)"
  shows "\<exists>p. bbox_envelope lib g = Inr p"
proof -
  let ?bs = "map (\<lambda>r. geom_bounds lib (the (snd r))) (rows g)"
  have a: "map (\<lambda>r. row_bounds lib (snd r)) (rows g) = map Some ?bs"
    using assms(2) by (simp add: list_all_iff keep_row_bounds)
  have b: "?bs \<noteq> []" using assms(1) by simp
  show ?thesis
    unfolding bbox_envelope_def total_bounds_Some[OF a b] by (simp add: box_def)
qed

lemma to_geojson_ll_kept:
  assumes "to_geojson_ll lib mv g = Inr out"
  shows "list_all (keep_row lib) (rows out)"
  using assms
  by (auto simp: to_geojson_ll_def Let_def list_all_iff split: sum.splits option.splits)

text \<open>
  C7. For a dataset in which every geometry has bounds (none missing, none empty), the
  envelope is the rectangle with the four corners (max x, min y), (max x, max y),
  (min x, max y), (min x, min y), the minima and maxima taken over the bounds of all
  geometries; and the envelope depends on the dataset through the list of its
  geometries' bounds only.
\<close>

theorem bbox_envelope_rectangle:
  assumes "map (\<lambda>r. row_bounds lib (snd r)) (rows g) = map Some bs" and "bs \<noteq> []"
  shows "bbox_envelope lib g =
           Inr (Polygon
             [(Some (Max (set (map (\<lambda>(x0, y0, x1, y1). x1) bs))),
               Some (Min (set (map (\<lambda>(x0, y0, x1, y1). y0) bs)))),
              (Some (Max (set (map (\<lambda>(x0, y0, x1, y1). x1) bs))),
               Some (Max (set (map (\<lambda>(x0, y0, x1, y1). y1) bs)))),
              (Some (Min (set (map (\<lambda>(x0, y0, x1, y1). x0) bs))),
               Some (Max (set (map (\<lambda>(x0, y0, x1, y1). y1) bs)))),
              (Some (Min (set (map (\<lambda>(x0, y0, x1, y1). x0) bs))),
               Some (Min (set (map (\<lambda>(x0, y0, x1, y1). y0) bs))))])
       \<and> (map (\<lambda>r. row_bounds lib' (snd r)) (rows g') = map (\<lambda>r. row_bounds lib (snd r)) (rows g)
            \<longrightarrow> bbox_envelope lib' g' = bbox_envelope lib g)"
proof
  show "bbox_envelope lib g =
           Inr (Polygon
             [(Some (Max (set (map (\<lambda>(x0, y0, x1, y1). x1) bs))),
               Some (Min (set (map (\<lambda>(x0, y0, x1, y1). y0) bs)))),
              (Some (Max (set (map (\<lambda>(x0, y0, x1, y1). x1) bs))),
               Some (Max (set (map (\<lambda>(x0, y0, x1, y1). y1) bs)))),
              (Some (Min (set (map (\<lambda>(x0, y0, x1, y1). x0) bs))),
               Some (Max (set (map (\<lambda>(x0, y0, x1, y1). y1) bs)))),
              (Some (Min (set (map (\<lambda>(x0, y0, x1, y1). x0) bs))),
               Some (Min (set (map (\<lambda>(x0, y0, x1, y1). y0) bs))))])"
    unfolding bbox_envelope_def total_bounds_Some[OF assms] by (simp add: box_def)
next
  show "map (\<lambda>r. row_bounds lib' (snd r)) (rows g') = map (\<lambda>r. row_bounds lib (snd r)) (rows g)
            \<longrightarrow> bbox_envelope lib' g' = bbox_envelope lib g"
  proof
    assume eq: "map (\<lambda>r. row_bounds lib' (snd r)) (rows g')
                  = map (\<lambda>r. row_bounds lib (snd r)) (rows g)"
    with assms(1) have eq': "map (\<lambda>r. row_bounds lib' (snd r)) (rows g') = map Some bs"
      by simp
    show "bbox_envelope lib' g' = bbox_envelope lib g"
      unfolding bbox_envelope_def total_bounds_Some[OF assms] total_bounds_Some[OF eq' assms(2)]
      by (simp add: box_def)
  qed
qed

theorem bbox_envelope_rectangle_witness:
  "bbox_envelope bounds_lib
       \<lparr>crs = Some 4326, rows = [(0::nat, Some (10, 40, 15, 45)), (1, Some (12, 42, 20, 50))]\<rparr>
     = Inr (Polygon [(Some 20, Some 40), (Some 20, Some 50),
                     (Some 10, Some 50), (Some 10, Some 40)])"
proof -
  let ?g = "\<lparr>crs = Some 4326,
      rows = [(0::nat, Some (10::int, 40::int, 15::int, 45::int)), (1, Some (12, 42, 20, 50))]\<rparr>"
  let ?bs = "[(10::int, 40::int, 15::int, 45::int), (12, 42, 20, 50)]"
  have a: "map (\<lambda>r. row_bounds bounds_lib (snd r)) (rows ?g) = map Some ?bs"
    by (simp add: row_bounds_def bounds_lib_def)
  have b: "?bs \<noteq> []" by simp
  from bbox_envelope_rectangle[OF a b, THEN conjunct1] show ?thesis by simp
qed

text \<open>
  C6, as the code has it. The envelope of a dataset without rows is not a value: the
  call raises. What it raises is the geometry library's error for a ring that does not
  close, from inside \<open>box\<close>, which is given four NaN bounds; \<open>bbox_envelope\<close> has no
  emptiness check of its own. With shapely 2 as the library the error is
  \<open>GEOSException\<close>, which is not an \<open>EmptyDatasetError\<close>.
\<close>

theorem bbox_envelope_empty:
  "bbox_envelope lib \<lparr>crs = c, rows = []\<rparr> = Inl (geom_ring_error lib)"
  by (simp add: bbox_envelope_def total_bounds_def box_def)

theorem bbox_envelope_empty_counterexample:
  "bbox_envelope sym_lib \<lparr>crs = Some 4326, rows = ([] :: (nat \<times> sym_geom option) list)\<rparr>
     = Inl (LibraryError ''GEOSException'')
   \<and> bbox_envelope sym_lib \<lparr>crs = Some 4326, rows = ([] :: (nat \<times> sym_geom option) list)\<rparr>
       \<noteq> Inl EmptyDatasetError"
  by (simp add: bbox_envelope_def total_bounds_def box_def sym_lib_def)

subsection \<open>The catalog merge\<close>

lemma cell_of_append:
  "cell_of (r @ map (\<lambda>c. (c, NA)) ex) c = (if c \<in> fst ` set r then cell_of r c else NA)"
proof (cases "map_of r c")
  case None
  then have n: "c \<notin> fst ` set r" by (simp add: map_of_eq_None_iff)
  have "map_of (map (\<lambda>c. (c, NA :: 'a cell)) ex) c = None \<or>
        map_of (map (\<lambda>c. (c, NA :: 'a cell)) ex) c = Some NA"
    by (induction ex) auto
  with None n show ?thesis by (auto simp: cell_of_def map_add_def split: option.splits)
next
  case (Some v)
  then have "c \<in> fst ` set r" by (metis map_of_eq_None_iff option.distinct(1))
  with Some show ?thesis by (simp add: cell_of_def map_add_def)
qed

lemma reindex_row_id:
  assumes "distinct (map fst r)"
  shows "reindex_row (map fst r) r = r"
proof -
  have "map (\<lambda>p. (fst p, cell_of r (fst p))) r = map (\<lambda>p. p) r"
  proof (rule map_cong[OF refl])
    fix p assume "p \<in> set r"
    then have "map_of r (fst p) = Some (snd p)"
      using assms map_of_is_SomeI[of r "fst p" "snd p"] by simp
    then show "(fst p, cell_of r (fst p)) = p" by (simp add: cell_of_def)
  qed
  then show ?thesis by (simp add: reindex_row_def comp_def)
qed

lemma align_columns_shape:
  "\<exists>ex. columns (align_columns cols df) = columns df @ ex
       \<and> set ex = set cols - set (columns df)
       \<and> data (align_columns cols df) = map (\<lambda>r. r @ map (\<lambda>c. (c, NA)) ex) (data df)
       \<and> index (align_columns cols df) = index df"
proof (induction cols rule: rev_induct)
  case Nil
  show ?case by (rule exI[of _ "[]"]) (simp add: align_columns_def)
next
  case (snoc c cols)
  then obtain ex where ex: "columns (align_columns cols df) = columns df @ ex"
    "set ex = set cols - set (columns df)"
    "data (align_columns cols df) = map (\<lambda>r. r @ map (\<lambda>c. (c, NA)) ex) (data df)"
    "index (align_columns cols df) = index df"
    by blast
  have step: "align_columns (cols @ [c]) df =
      (if c \<notin> set (columns (align_columns cols df))
       then setitem (align_columns cols df) c NA else align_columns cols df)"
    by (simp add: align_columns_def)
  show ?case
  proof (cases "c \<in> set (columns (align_columns cols df))")
    case True
    with ex have "set ex = set (cols @ [c]) - set (columns df)" by auto
    with True ex step show ?thesis by auto
  next
    case False
    with ex have s: "set (ex @ [c]) = set (cols @ [c]) - set (columns df)" by auto
    from False step have "align_columns (cols @ [c]) df = setitem (align_columns cols df) c NA"
      by simp
    with False ex have "columns (align_columns (cols @ [c]) df) = columns df @ (ex @ [c])"
      and "data (align_columns (cols @ [c]) df)
            = map (\<lambda>r. r @ map (\<lambda>c. (c, NA)) (ex @ [c])) (data df)"
      and "index (align_columns (cols @ [c]) df) = index df"
      by (simp_all add: setitem_def)
    with s show ?thesis by blast
  qed
qed

text \<open>
  C3. An empty loaded catalog gives the new records as they are. Otherwise the result
  has the loaded catalog's columns in its order, a row index counting from 0, and the
  loaded rows followed by the new rows, each new row holding under every such column its
  own cell when the new records have that column and the missing marker when not.
\<close>

theorem merge_catalog_rows:
  "(df_empty existing \<longrightarrow> merge_catalog existing df_new = Inr df_new)
   \<and> (\<not> df_empty existing \<and> wf_df existing \<and> wf_df df_new \<longrightarrow>
        merge_catalog existing df_new =
          Inr \<lparr>columns = columns existing,
               index = [0..<length (data existing) + length (data df_new)],
               data = data existing @
                 map (\<lambda>r. map (\<lambda>c. (c, if c \<in> set (columns df_new) then cell_of r c else NA))
                             (columns existing))
                   (data df_new)\<rparr>)"
proof (intro conjI impI)
  assume "df_empty existing"
  then show "merge_catalog existing df_new = Inr df_new" by (simp add: merge_catalog_def)
next
  assume a: "\<not> df_empty existing \<and> wf_df existing \<and> wf_df df_new"
  then have ne: "\<not> df_empty existing"
    and de: "distinct (columns existing)"
    and ke: "\<And>r. r \<in> set (data existing) \<Longrightarrow> map fst r = columns existing"
    and kn: "\<And>r. r \<in> set (data df_new) \<Longrightarrow> map fst r = columns df_new"
    by (auto simp: wf_df_def list_all_iff)
  let ?cols = "columns existing"
  let ?al = "align_columns ?cols df_new"
  obtain ex where ex: "columns ?al = columns df_new @ ex"
    "set ex = set ?cols - set (columns df_new)"
    "data ?al = map (\<lambda>r. r @ map (\<lambda>c. (c, NA)) ex) (data df_new)"
    using align_columns_shape[of ?cols df_new] by blast
  let ?proj = "\<lambda>r. map (\<lambda>c. (c, if c \<in> set (columns df_new) then cell_of r c else NA)) ?cols"
  have none: "filter (\<lambda>c. c \<notin> set (columns ?al)) ?cols = []"
    using ex(1,2) by (auto simp: filter_empty_conv)
  have proj: "map (reindex_row ?cols) (data ?al) = map ?proj (data df_new)"
  proof -
    have "\<And>r. r \<in> set (data df_new) \<Longrightarrow>
            reindex_row ?cols (r @ map (\<lambda>c. (c, NA)) ex) = ?proj r"
    proof -
      fix r assume "r \<in> set (data df_new)"
      then have "fst ` set r = set (columns df_new)" using kn[of r] by (metis set_map)
      then show "reindex_row ?cols (r @ map (\<lambda>c. (c, NA)) ex) = ?proj r"
        by (simp add: reindex_row_def cell_of_append)
    qed
    then show ?thesis unfolding ex(3) by (simp add: comp_def)
  qed
  have g: "getitem_cols ?al ?cols = Inr (?al\<lparr>columns := ?cols, data := map ?proj (data df_new)\<rparr>)"
    unfolding getitem_cols_def none proj[symmetric] by simp
  have id1: "map (reindex_row ?cols) (data existing) = data existing"
  proof (rule map_idI)
    fix r assume "r \<in> set (data existing)"
    then have k: "map fst r = ?cols" by (rule ke)
    with de have "distinct (map fst r)" by simp
    then have "reindex_row (map fst r) r = r" by (rule reindex_row_id)
    with k show "reindex_row ?cols r = r" by simp
  qed
  have id2: "map (reindex_row ?cols) (map ?proj (data df_new)) = map ?proj (data df_new)"
  proof (rule map_idI)
    fix r' assume "r' \<in> set (map ?proj (data df_new))"
    then obtain r where r': "r' = ?proj r" by auto
    then have k: "map fst r' = ?cols" by (simp add: comp_def)
    with de have "distinct (map fst r')" by simp
    then have "reindex_row (map fst r') r' = r'" by (rule reindex_row_id)
    with k show "reindex_row ?cols r' = r'" by simp
  qed
  let ?new' = "?al\<lparr>columns := ?cols, data := map ?proj (data df_new)\<rparr>"
  have cx: "columns ?new' = ?cols" and dx: "data ?new' = map ?proj (data df_new)"
    by simp_all
  have f: "filter (\<lambda>c. c \<notin> set ?cols) ?cols = []" by simp
  have rs: "map (reindex_row ?cols) (data existing @ map ?proj (data df_new))
              = data existing @ map ?proj (data df_new)"
    using id1 id2 by (simp only: map_append)
  have "concat_ignore_index existing ?new' =
          \<lparr>columns = ?cols,
           index = [0..<length (data existing @ map ?proj (data df_new))],
           data = data existing @ map ?proj (data df_new)\<rparr>"
    unfolding concat_ignore_index_def Let_def cx dx f append_Nil2 rs by (rule refl)
  then show "merge_catalog existing df_new =
          Inr \<lparr>columns = ?cols,
               index = [0..<length (data existing) + length (data df_new)],
               data = data existing @ map ?proj (data df_new)\<rparr>"
    unfolding merge_catalog_def g using ne by simp
qed

theorem merge_catalog_rows_witness:
  "merge_catalog
      \<lparr>columns = [''id'', ''note'', ''href''], index = [7],
       data = [[(''id'', Str ''USNIC_20250901''), (''note'', Other ''legacy''),
                (''href'', Str ''h0'')]]\<rparr>
      \<lparr>columns = [''id'', ''datetime'', ''href'', ''geometry''], index = [0],
       data = [[(''id'', Str ''USNIC_20251003''), (''datetime'', Timestamp 739527),
                (''href'', Str ''h1''), (''geometry'', Geometry (Polygon [] :: int polygon))]]\<rparr>
    = Inr \<lparr>columns = [''id'', ''note'', ''href''], index = [0, 1],
           data = [[(''id'', Str ''USNIC_20250901''), (''note'', Other ''legacy''),
                    (''href'', Str ''h0'')],
                   [(''id'', Str ''USNIC_20251003''), (''note'', NA),
                    (''href'', Str ''h1'')]]\<rparr>
   \<and> merge_catalog
        \<lparr>columns = [''id'', ''datetime'', ''href'', ''geometry''], index = [], data = []\<rparr>
        \<lparr>columns = [''id''], index = [0], data = [[(''id'', Str ''USNIC_20251003'')]]\<rparr>
      = Inr \<lparr>columns = [''id''], index = [0],
             data = [[(''id'', Str ''USNIC_20251003'') :: string \<times> int cell]]\<rparr>"
proof -
  let ?ex = "\<lparr>columns = [''id'', ''note'', ''href''], index = [7],
       data = [[(''id'', Str ''USNIC_20250901''), (''note'', Other ''legacy''),
                (''href'', Str ''h0'') :: string \<times> int cell]]\<rparr>"
  let ?new = "\<lparr>columns = [''id'', ''datetime'', ''href'', ''geometry''], index = [0],
       data = [[(''id'', Str ''USNIC_20251003''), (''datetime'', Timestamp 739527),
                (''href'', Str ''h1''), (''geometry'', Geometry (Polygon [])) :: string \<times> int cell]]\<rparr>"
  let ?boot = "\<lparr>columns = [''id'', ''datetime'', ''href'', ''geometry''], index = [],
       data = [] :: int record_row list\<rparr>"
  let ?one = "\<lparr>columns = [''id''], index = [0],
       data = [[(''id'', Str ''USNIC_20251003'') :: string \<times> int cell]]\<rparr>"
  have h: "\<not> df_empty ?ex \<and> wf_df ?ex \<and> wf_df ?new"
    by (simp add: df_empty_def wf_df_def)
  have e: "df_empty ?boot" by (simp add: df_empty_def)
  from merge_catalog_rows[of ?ex ?new] h
  have 1: "merge_catalog ?ex ?new =
      Inr \<lparr>columns = [''id'', ''note'', ''href''], index = [0, 1],
           data = [[(''id'', Str ''USNIC_20250901''), (''note'', Other ''legacy''),
                    (''href'', Str ''h0'')],
                   [(''id'', Str ''USNIC_20251003''), (''note'', NA),
                    (''href'', Str ''h1'')]]\<rparr>"
    by (simp add: cell_of_def upt_rec)
  from merge_catalog_rows[of ?boot ?one] e
  have 2: "merge_catalog ?boot ?one = Inr ?one" by blast
  show ?thesis by (intro conjI) (rule 1 2)+
qed



subsection \<open>The loop over the dates\<close>


lemma visit_date_eq:
  "visit_date cfg w ids d new_rows st =
     (if item_id_of d \<in> ids
      then (Inr new_rows, print_msg (SkipPresent (item_id_of d)) st)
      else apply_verdict (date_verdict cfg w d) new_rows st)"
  by (auto simp: visit_date_def fetch_shapefile_def process_shapefile_def date_verdict_def
        Let_def print_msg_def split: sum.splits option.splits)

lemma date_verdict_NewRow:
  assumes "date_verdict cfg w d = NewRow ms p g r"
  shows "canonical_row r" and "cell_of r ''id'' = Str (item_id_of d)"
    and "ms = [Download (usnic_zip_url cfg d)]"
  using assms
  by (auto simp: date_verdict_def Let_def canonical_row_def cell_of_def
        split: sum.splits option.splits if_splits)

lemma date_verdict_NoRow:
  assumes "date_verdict cfg w d = NoRow ms"
  shows "list_all (\<lambda>m. \<not> is_saved m) ms"
  using assms
  by (auto simp: date_verdict_def Let_def split: sum.splits option.splits if_splits)

text \<open>
  The envelope does not raise in the loop: the dataset it is given went through
  \<open>to_geojson_ll\<close> and the emptiness guard, so it has a row and every row has bounds.
\<close>

lemma date_verdict_FileOnly: "date_verdict cfg w d \<noteq> FileOnly ms p g"
proof
  assume a: "date_verdict cfg w d = FileOnly ms p g"
  then obtain gdf_src e where
    n: "to_geojson_ll (geos w) (make_valid w) gdf_src = Inr g"
    and ne: "\<not> gdf_empty g" and b: "bbox_envelope (geos w) g = Inl e"
    by (auto simp: date_verdict_def Let_def split: sum.splits option.splits if_splits)
  from n have "list_all (keep_row (geos w)) (rows g)" by (rule to_geojson_ll_kept)
  with ne have "\<exists>p. bbox_envelope (geos w) g = Inr p"
    by (intro bbox_envelope_kept) (simp_all add: gdf_empty_def)
  with b show False by simp
qed

lemma visit_date_Inr:
  "\<exists>rs1 st1. visit_date cfg w ids d new_rows st = (Inr rs1, st1)
      \<and> parquet st1 = parquet st \<and> public_copy st1 = public_copy st"
  by (cases "date_verdict cfg w d") (auto simp: visit_date_eq print_msg_def)

lemma visit_dates_Inr:
  "\<exists>new_rows' st'. visit_dates cfg w ids ds new_rows st = (Inr new_rows', st')
      \<and> parquet st' = parquet st \<and> public_copy st' = public_copy st"
proof (induction ds arbitrary: new_rows st)
  case Nil
  show ?case by simp
next
  case (Cons d ds)
  obtain rs1 st1 where 1: "visit_date cfg w ids d new_rows st = (Inr rs1, st1)"
    and p: "parquet st1 = parquet st" "public_copy st1 = public_copy st"
    using visit_date_Inr by blast
  from Cons.IH[of rs1 st1] obtain rs2 st2 where
    "visit_dates cfg w ids ds rs1 st1 = (Inr rs2, st2)"
    "parquet st2 = parquet st1" "public_copy st2 = public_copy st1"
    by blast
  with 1 p show ?case by simp
qed

lemma visit_dates_rows:
  assumes "visit_dates cfg w ids ds new_rows st = (Inr new_rows', st')"
  shows "\<exists>new. new_rows' = new_rows @ new \<and> list_all canonical_row new
      \<and> (\<forall>d \<in> set ds. item_id_of d \<in> ids \<or> (\<exists>ms. date_verdict cfg w d = NoRow ms)
            \<or> item_id_of d \<in> ids_of w new)"
  using assms
proof (induction ds arbitrary: new_rows st)
  case Nil
  then show ?case by (simp add: ids_of_def)
next
  case (Cons d ds)
  obtain rs1 st1 where 1: "visit_date cfg w ids d new_rows st = (Inr rs1, st1)"
    using visit_date_Inr by blast
  with Cons.prems have 2: "visit_dates cfg w ids ds rs1 st1 = (Inr new_rows', st')" by simp
  from Cons.IH[OF 2] obtain new where new: "new_rows' = rs1 @ new" "list_all canonical_row new"
    "\<forall>d \<in> set ds. item_id_of d \<in> ids \<or> (\<exists>ms. date_verdict cfg w d = NoRow ms)
            \<or> item_id_of d \<in> ids_of w new"
    by blast
  show ?case
  proof (cases "item_id_of d \<in> ids")
    case True
    with 1 have "rs1 = new_rows" by (simp add: visit_date_eq)
    with new True show ?thesis by auto
  next
    case False
    show ?thesis
    proof (cases "date_verdict cfg w d")
      case (NoRow ms)
      with 1 False have "rs1 = new_rows" by (simp add: visit_date_eq)
      with new NoRow show ?thesis by auto
    next
      case (FileOnly ms p g)
      then show ?thesis by (simp add: date_verdict_FileOnly)
    next
      case (NewRow ms p g r)
      with 1 False have rs1: "rs1 = new_rows @ [r]" by (simp add: visit_date_eq)
      from NewRow have r: "canonical_row r" "cell_of r ''id'' = Str (item_id_of d)"
        by (rule date_verdict_NewRow)+
      have a: "new_rows' = new_rows @ (r # new)" using new(1) rs1 by simp
      have b: "list_all canonical_row (r # new)" using new(2) r(1) by simp
      have c: "item_id_of d \<in> ids_of w (r # new)"
        using r(2) by (simp add: ids_of_def astype_str_def)
      have d: "\<forall>d' \<in> set ds. item_id_of d' \<in> ids \<or> (\<exists>ms. date_verdict cfg w d' = NoRow ms)
            \<or> item_id_of d' \<in> ids_of w (r # new)"
        using new(3) by (auto simp: ids_of_def)
      from a b c d show ?thesis by (intro exI[of _ "r # new"]) simp
    qed
  qed
qed

lemma visit_dates_all_skipped:
  assumes "\<forall>d \<in> set ds. item_id_of d \<in> ids \<or> (\<exists>ms. date_verdict cfg w d = NoRow ms)"
  shows "\<exists>ms. visit_dates cfg w ids ds new_rows st
                 = (Inr new_rows, st\<lparr>stdout := stdout st @ ms\<rparr>)
            \<and> list_all (\<lambda>m. \<not> is_saved m) ms"
  using assms
proof (induction ds arbitrary: st)
  case Nil
  show ?case by (rule exI[of _ "[]"]) simp
next
  case (Cons d ds)
  have "\<exists>m1. visit_date cfg w ids d new_rows st = (Inr new_rows, st\<lparr>stdout := stdout st @ m1\<rparr>)
            \<and> list_all (\<lambda>m. \<not> is_saved m) m1"
  proof (cases "item_id_of d \<in> ids")
    case True
    then show ?thesis
      by (intro exI[of _ "[SkipPresent (item_id_of d)]"]) (simp add: visit_date_eq print_msg_def)
  next
    case False
    with Cons.prems obtain ms where ms: "date_verdict cfg w d = NoRow ms" by auto
    then have "list_all (\<lambda>m. \<not> is_saved m) ms" by (rule date_verdict_NoRow)
    with ms False show ?thesis by (intro exI[of _ ms]) (simp add: visit_date_eq)
  qed
  then obtain m1 where 1: "visit_date cfg w ids d new_rows st
        = (Inr new_rows, st\<lparr>stdout := stdout st @ m1\<rparr>)"
    and s1: "list_all (\<lambda>m. \<not> is_saved m) m1"
    by blast
  from Cons.prems have "\<forall>d \<in> set ds. item_id_of d \<in> ids \<or> (\<exists>ms. date_verdict cfg w d = NoRow ms)"
    by simp
  from Cons.IH[OF this, of "st\<lparr>stdout := stdout st @ m1\<rparr>"] obtain m2 where
    2: "visit_dates cfg w ids ds new_rows (st\<lparr>stdout := stdout st @ m1\<rparr>)
          = (Inr new_rows, st\<lparr>stdout := stdout st @ m1\<rparr>\<lparr>stdout := stdout (st\<lparr>stdout := stdout st @ m1\<rparr>) @ m2\<rparr>)"
    and s2: "list_all (\<lambda>m. \<not> is_saved m) m2"
    by blast
  from 1 2 s1 s2 show ?case by (intro exI[of _ "m1 @ m2"]) simp
qed


lemma foldl_add_keys_canonical:
  assumes "list_all canonical_row rs"
  shows "foldl add_keys [''id'', ''datetime'', ''href'', ''geometry''] rs
           = [''id'', ''datetime'', ''href'', ''geometry'']"
  using assms by (induction rs) (simp_all add: add_keys_def canonical_row_def)

lemma GeoDataFrame_canonical:
  assumes "rs \<noteq> []" and "list_all canonical_row rs"
  shows "GeoDataFrame rs =
           \<lparr>columns = [''id'', ''datetime'', ''href'', ''geometry''],
            index = [0..<length rs], data = rs\<rparr>"
proof -
  from assms obtain r rs' where rs: "rs = r # rs'" and r: "canonical_row r"
    and rs': "list_all canonical_row rs'"
    by (cases rs) auto
  have 1: "add_keys [] r = [''id'', ''datetime'', ''href'', ''geometry'']"
    using r by (simp add: add_keys_def canonical_row_def)
  have cols: "foldl add_keys [] rs = [''id'', ''datetime'', ''href'', ''geometry'']"
    unfolding rs using 1 foldl_add_keys_canonical[OF rs'] by simp
  have "map (reindex_row [''id'', ''datetime'', ''href'', ''geometry'']) rs = rs"
  proof (rule map_idI)
    fix x assume "x \<in> set rs"
    with assms(2) have k: "map fst x = [''id'', ''datetime'', ''href'', ''geometry'']"
      by (simp add: list_all_iff canonical_row_def)
    then have "distinct (map fst x)" by simp
    then have "reindex_row (map fst x) x = x" by (rule reindex_row_id)
    with k show "reindex_row [''id'', ''datetime'', ''href'', ''geometry''] x = x" by simp
  qed
  then show ?thesis unfolding GeoDataFrame_def Let_def cols by simp
qed

lemma cell_of_reindex_row: "c \<in> set cols \<Longrightarrow> cell_of (reindex_row cols r) c = cell_of r c"
proof -
  assume "c \<in> set cols"
  then have "map_of (map (\<lambda>c. (c, cell_of r c)) cols) c = Some (cell_of r c)"
    by (induction cols) auto
  then show ?thesis by (simp add: cell_of_def reindex_row_def)
qed

lemma merge_catalog_ids:
  assumes new: "new \<noteq> []" "list_all canonical_row new"
    and ids: "existing_ids w existing = Inr ids"
    and m: "merge_catalog existing (GeoDataFrame new) = Inr df_out"
  shows "existing_ids w df_out = Inr (ids \<union> ids_of w new)"
proof -
  let ?canon = "[''id'', ''datetime'', ''href'', ''geometry'']"
  let ?new = "\<lparr>columns = ?canon, index = [0..<length new], data = new\<rparr>"
  have g: "GeoDataFrame new = ?new" using new by (rule GeoDataFrame_canonical)
  show ?thesis
  proof (cases "df_empty existing")
    case True
    with ids have "ids = {}" by (simp add: existing_ids_def)
    moreover from True m g have "df_out = ?new" by (simp add: merge_catalog_def)
    ultimately show ?thesis using new(1)
      by (simp add: existing_ids_def df_empty_def ids_of_def)
  next
    case False
    with ids have idc: "''id'' \<in> set (columns existing)"
      and idv: "ids = ids_of w (data existing)"
      by (auto simp: existing_ids_def ids_of_def split: if_splits)
    let ?cols = "columns existing"
    let ?al = "align_columns ?cols ?new"
    obtain ex where ex: "columns ?al = ?canon @ ex"
      "set ex = set ?cols - set ?canon"
      "data ?al = map (\<lambda>r. r @ map (\<lambda>c. (c, NA)) ex) new"
      using align_columns_shape[of ?cols ?new] by auto
    have none: "filter (\<lambda>c. c \<notin> set (columns ?al)) ?cols = []"
      using ex(1,2) by (auto simp: filter_empty_conv)
    let ?new' = "?al\<lparr>columns := ?cols, data := map (reindex_row ?cols) (data ?al)\<rparr>"
    have gi: "getitem_cols ?al ?cols = Inr ?new'"
      unfolding getitem_cols_def none by simp
    from m False g gi have out: "df_out = concat_ignore_index existing ?new'"
      by (simp add: merge_catalog_def)
    have cx: "columns ?new' = ?cols" and dx: "data ?new' = map (reindex_row ?cols) (data ?al)"
      by simp_all
    have f: "filter (\<lambda>c. c \<notin> set ?cols) ?cols = []" by simp
    have oc: "columns df_out = ?cols"
      unfolding out concat_ignore_index_def Let_def cx f by simp
    have od: "data df_out = map (reindex_row ?cols) (data existing @ map (reindex_row ?cols) (data ?al))"
      unfolding out concat_ignore_index_def Let_def cx dx f by simp
    from False have "data existing \<noteq> []" by (simp add: df_empty_def)
    with od oc False have ne: "\<not> df_empty df_out" by (simp add: df_empty_def)
    have c1: "\<And>r. cell_of (reindex_row ?cols r) ''id'' = cell_of r ''id''"
      using idc by (rule cell_of_reindex_row)
    have c2: "\<And>r. r \<in> set new \<Longrightarrow>
        cell_of (r @ map (\<lambda>c. (c, NA)) ex) ''id'' = cell_of r ''id''"
    proof -
      fix r assume "r \<in> set new"
      with new(2) have "map fst r = ?canon" by (simp add: list_all_iff canonical_row_def)
      then have "''id'' \<in> fst ` set r" by (metis list.set_intros(1) set_map)
      then show "cell_of (r @ map (\<lambda>c. (c, NA)) ex) ''id'' = cell_of r ''id''"
        by (simp add: cell_of_append)
    qed
    have "ids_of w (data df_out) = ids_of w (data existing) \<union> ids_of w new"
      unfolding od ex(3) ids_of_def using c2 by (auto simp: c1)
    with ne oc idc idv show ?thesis by (simp add: existing_ids_def ids_of_def)
  qed
qed


subsection \<open>The run\<close>

lemma main_NoneE:
  assumes "main cfg w st0 = (None, st1)"
  obtains existing ids dates new_rows sta stb where
    "load_existing_parquet
       (print_msg (Fetching (START_DATE cfg) (END_DATE cfg) (USNIC_PREFIX cfg)) st0)
       = Inr existing"
    and "existing_ids w existing = Inr ids"
    and "date_iter (START_DATE cfg) (END_DATE cfg) = (dates, None)"
    and "visit_dates cfg w ids dates []
           (print_msg (Fetching (START_DATE cfg) (END_DATE cfg) (USNIC_PREFIX cfg)) st0)
           = (Inr new_rows, sta)"
    and "save_parquet cfg w existing new_rows sta = (None, stb)"
    and "copy_parquet cfg w stb = (None, st1)"
  using assms
  by (auto simp: main_def Let_def split: sum.splits prod.splits option.splits)

lemma main_reaches_copy:
  assumes "load_existing_parquet
       (print_msg (Fetching (START_DATE cfg) (END_DATE cfg) (USNIC_PREFIX cfg)) st0)
       = Inr existing"
    and "existing_ids w existing = Inr ids"
    and "date_iter (START_DATE cfg) (END_DATE cfg) = (dates, None)"
    and "visit_dates cfg w ids dates []
           (print_msg (Fetching (START_DATE cfg) (END_DATE cfg) (USNIC_PREFIX cfg)) st0)
           = (Inr new_rows, sta)"
    and "save_parquet cfg w existing new_rows sta = (None, stb)"
  shows "main cfg w st0 = copy_parquet cfg w stb"
  using assms by (simp add: main_def Let_def)

lemma load_existing_parquet_cong:
  "parquet st = parquet st' \<Longrightarrow> load_existing_parquet st = load_existing_parquet st'"
  by (simp add: load_existing_parquet_def)

lemma copy_parquet_None:
  assumes "copy_parquet cfg w stb = (None, st1)"
  shows "parquet st1 = parquet stb"
    and "parquet stb \<noteq> None \<Longrightarrow> shutil_copy w (PARQUET_PATH cfg) (OUTPUT_DIR cfg) = None"
    and "parquet stb \<noteq> None \<Longrightarrow> public_copy st1 = parquet stb"
  using assms
  by (auto simp: copy_parquet_def Let_def print_msg_def split: if_splits option.splits)

lemma copy_parquet_again:
  assumes "copy_parquet cfg w stb = (None, st1)"
  shows "copy_parquet cfg w (st1\<lparr>stdout := out\<rparr>) =
           (None, st1\<lparr>stdout := out @ (if parquet st1 \<noteq> None
                                          then [Copying (PARQUET_PATH cfg) (OUTPUT_DIR cfg)]
                                          else [])\<rparr>)"
proof (cases "parquet st1 = None")
  case True
  then show ?thesis by (simp add: copy_parquet_def)
next
  case False
  with copy_parquet_None[OF assms] have c: "shutil_copy w (PARQUET_PATH cfg) (OUTPUT_DIR cfg) = None"
    and p: "public_copy st1 = parquet st1"
    by simp_all
  have "st1\<lparr>stdout := out @ [Copying (PARQUET_PATH cfg) (OUTPUT_DIR cfg)],
            public_copy := parquet st1\<rparr>
        = st1\<lparr>stdout := out @ [Copying (PARQUET_PATH cfg) (OUTPUT_DIR cfg)]\<rparr>"
    using p by (cases st1) simp
  with False c show ?thesis by (simp add: copy_parquet_def Let_def print_msg_def)
qed

lemma second_run:
  assumes load: "load_existing_parquet st1 = Inr existing2"
    and ids: "existing_ids w existing2 = Inr ids2"
    and di: "date_iter (START_DATE cfg) (END_DATE cfg) = (dates, None)"
    and skip: "\<forall>d \<in> set dates. item_id_of d \<in> ids2 \<or> (\<exists>ms. date_verdict cfg w d = NoRow ms)"
    and cp: "copy_parquet cfg w stb = (None, st1)"
  shows "\<exists>ms. main cfg w st1 =
           (None,
            st1\<lparr>stdout := stdout st1
                   @ [Fetching (START_DATE cfg) (END_DATE cfg) (USNIC_PREFIX cfg)] @ ms
                   @ [NoNewItems]
                   @ (if parquet st1 \<noteq> None
                      then [Copying (PARQUET_PATH cfg) (OUTPUT_DIR cfg)] else [])\<rparr>)
         \<and> list_all (\<lambda>m. \<not> is_saved m) ms"
proof -
  let ?F = "Fetching (START_DATE cfg) (END_DATE cfg) (USNIC_PREFIX cfg)"
  let ?stf = "print_msg ?F st1"
  have l: "load_existing_parquet ?stf = Inr existing2"
    using load load_existing_parquet_cong[of ?stf st1] by (simp add: print_msg_def)
  from visit_dates_all_skipped[OF skip, of "[]" ?stf] obtain ms where
    v: "visit_dates cfg w ids2 dates [] ?stf = (Inr [], ?stf\<lparr>stdout := stdout ?stf @ ms\<rparr>)"
    and s: "list_all (\<lambda>m. \<not> is_saved m) ms"
    by blast
  let ?sta = "?stf\<lparr>stdout := stdout ?stf @ ms\<rparr>"
  have sv: "save_parquet cfg w existing2 [] ?sta = (None, print_msg NoNewItems ?sta)"
    by (simp add: save_parquet_def)
  have "main cfg w st1 = copy_parquet cfg w (print_msg NoNewItems ?sta)"
    using l ids di v sv by (rule main_reaches_copy)
  also have "print_msg NoNewItems ?sta = st1\<lparr>stdout := stdout st1 @ [?F] @ ms @ [NoNewItems]\<rparr>"
    by (simp add: print_msg_def)
  also have "copy_parquet cfg w (st1\<lparr>stdout := stdout st1 @ [?F] @ ms @ [NoNewItems]\<rparr>) =
      (None, st1\<lparr>stdout := (stdout st1 @ [?F] @ ms @ [NoNewItems])
                 @ (if parquet st1 \<noteq> None
                    then [Copying (PARQUET_PATH cfg) (OUTPUT_DIR cfg)] else [])\<rparr>)"
    using cp by (rule copy_parquet_again)
  finally show ?thesis using s by (intro exI[of _ ms]) simp
qed

text \<open>
  C4. A date whose item id is in the loaded catalog is skipped with one message: no
  download, no file, no row. After a run that ended normally, a second run in the same
  world with the same configuration leaves every file as it is (the GeoJSON files, the
  catalog and its copy): it ends normally, stages no row, prints that there is nothing
  new to save and never that it saved.
\<close>

theorem second_run_changes_nothing:
  "(main cfg w st0 = (None, st1) \<longrightarrow>
      (\<exists>ms. main cfg w st1 =
           (None,
            st1\<lparr>stdout := stdout st1
                   @ [Fetching (START_DATE cfg) (END_DATE cfg) (USNIC_PREFIX cfg)] @ ms
                   @ [NoNewItems]
                   @ (if parquet st1 \<noteq> None
                      then [Copying (PARQUET_PATH cfg) (OUTPUT_DIR cfg)] else [])\<rparr>)
         \<and> list_all (\<lambda>m. \<not> is_saved m) ms))
   \<and> (item_id_of d \<in> ids \<longrightarrow>
        visit_date cfg w ids d new_rows st
          = (Inr new_rows, print_msg (SkipPresent (item_id_of d)) st))"
proof (intro conjI impI)
  assume run1: "main cfg w st0 = (None, st1)"
  let ?F = "Fetching (START_DATE cfg) (END_DATE cfg) (USNIC_PREFIX cfg)"
  let ?stf = "print_msg ?F st0"
  from run1 obtain existing ids1 dates rows1 sta stb where
    load: "load_existing_parquet ?stf = Inr existing"
    and ids: "existing_ids w existing = Inr ids1"
    and di: "date_iter (START_DATE cfg) (END_DATE cfg) = (dates, None)"
    and vd: "visit_dates cfg w ids1 dates [] ?stf = (Inr rows1, sta)"
    and sv: "save_parquet cfg w existing rows1 sta = (None, stb)"
    and cp: "copy_parquet cfg w stb = (None, st1)"
    by (rule main_NoneE)
  from visit_dates_Inr[of cfg w ids1 dates "[]" ?stf] vd
  have pa: "parquet sta = parquet st0" by (simp add: print_msg_def)
  from visit_dates_rows[OF vd] have canon: "list_all canonical_row rows1"
    and cover: "\<forall>d \<in> set dates. item_id_of d \<in> ids1 \<or> (\<exists>ms. date_verdict cfg w d = NoRow ms)
            \<or> item_id_of d \<in> ids_of w rows1"
    by auto
  have p1: "parquet st1 = parquet stb" using cp by (rule copy_parquet_None)
  show "\<exists>ms. main cfg w st1 =
           (None,
            st1\<lparr>stdout := stdout st1 @ [?F] @ ms @ [NoNewItems]
                   @ (if parquet st1 \<noteq> None
                      then [Copying (PARQUET_PATH cfg) (OUTPUT_DIR cfg)] else [])\<rparr>)
         \<and> list_all (\<lambda>m. \<not> is_saved m) ms"
  proof (cases "rows1 = []")
    case True
    with sv have "stb = print_msg NoNewItems sta" by (simp add: save_parquet_def)
    with pa p1 have "parquet st1 = parquet ?stf" by (simp add: print_msg_def)
    with load have l2: "load_existing_parquet st1 = Inr existing"
      using load_existing_parquet_cong[of st1 ?stf] by simp
    from cover True have skip: "\<forall>d \<in> set dates. item_id_of d \<in> ids1
        \<or> (\<exists>ms. date_verdict cfg w d = NoRow ms)"
      by (simp add: ids_of_def)
    from l2 ids di skip cp show ?thesis by (rule second_run)
  next
    case False
    with sv obtain df_out where m: "merge_catalog existing (GeoDataFrame rows1) = Inr df_out"
      and sb: "stb = print_msg (Saved (length rows1) (PARQUET_PATH cfg))
                 (sta\<lparr>parquet := Some (Table df_out)\<rparr>)"
      by (auto simp: save_parquet_def split: sum.splits option.splits)
    from sb p1 have "parquet st1 = Some (Table df_out)" by (simp add: print_msg_def)
    then have l2: "load_existing_parquet st1 = Inr df_out"
      by (simp add: load_existing_parquet_def)
    have i2: "existing_ids w df_out = Inr (ids1 \<union> ids_of w rows1)"
      using False canon ids m by (rule merge_catalog_ids)
    from cover have skip: "\<forall>d \<in> set dates. item_id_of d \<in> ids1 \<union> ids_of w rows1
        \<or> (\<exists>ms. date_verdict cfg w d = NoRow ms)"
      by auto
    from l2 i2 di skip cp show ?thesis by (rule second_run)
  qed
next
  assume "item_id_of d \<in> ids"
  then show "visit_date cfg w ids d new_rows st
          = (Inr new_rows, print_msg (SkipPresent (item_id_of d)) st)"
    by (simp add: visit_date_def Let_def)
qed



subsection \<open>The run in the symbolic world\<close>

lemma sym_ord2ymd: "ord2ymd 739527 = (2025, 10, 3)"
  by (simp add: ord2ymd_def Let_def DAYS_BEFORE_MONTH_def DAYS_IN_MONTH_def)

lemma sym_item_id: "item_id_of 739527 = ''USNIC_20251003''"
  by (simp add: item_id_of_def strftime_def sym_ord2ymd zpad_def Let_def digits10.simps)

lemma sym_url:
  "usnic_zip_url sym_config 739527
     = ''https://usicecenter.gov/File/DownloadArchive?prd=3010032025''"
  by (simp add: usnic_zip_url_def sym_config_def strftime_def sym_ord2ymd zpad_def Let_def
        digits10.simps)

lemma sym_dates: "date_iter 739527 739527 = ([739527], None)"
  by (simp add: date_iter.simps date_add_days_def MAXORDINAL_def)

lemma sym_normalized:
  "to_geojson_ll sym_lib (Some sym_make_valid)
     \<lparr>crs = None, rows = [(0::nat, Some (Raw False False)), (1, None)]\<rparr> = Inr sym_gdf_ll"
  by (simp add: to_geojson_ll_def to_crs_def reproject_def buffer_if_invalid_def keep_row_def
        sym_lib_def sym_make_valid_def sym_gdf_ll_def)

lemma sym_envelope:
  "bbox_envelope sym_lib sym_gdf_ll
     = Inr (Polygon [(Some 20, Some 40), (Some 20, Some 50),
                     (Some 10, Some 50), (Some 10, Some 40)])"
  by (simp add: bbox_envelope_def total_bounds_def box_def row_bounds_def nanmin_def nanmax_def
        List.map_filter_simps sym_lib_def sym_gdf_ll_def)

lemma sym_verdict:
  assumes "requests_get w = requests_get sym_world" "unzip_shp w = unzip_shp sym_world"
    "read_file w = read_file sym_world" "to_file w = to_file sym_world"
    "geos w = geos sym_world" "make_valid w = make_valid sym_world"
  shows "date_verdict sym_config w 739527 =
     NewRow [Download ''https://usicecenter.gov/File/DownloadArchive?prd=3010032025'']
       ''geojsons/USNIC_20251003.geojson'' sym_gdf_ll sym_row"
proof -
  have n: "to_geojson_ll (geos sym_world) (make_valid sym_world)
     \<lparr>crs = None, rows = [(0::nat, Some (Raw False False)), (1, None)]\<rparr> = Inr sym_gdf_ll"
    using sym_normalized by (simp add: sym_world_def)
  have e: "bbox_envelope (geos sym_world) sym_gdf_ll
     = Inr (Polygon [(Some 20, Some 40), (Some 20, Some 50),
                     (Some 10, Some 50), (Some 10, Some 40)])"
    using sym_envelope by (simp add: sym_world_def)
  have ne: "\<not> gdf_empty sym_gdf_ll" by (simp add: gdf_empty_def sym_gdf_ll_def)
  have r: "read_file sym_world (''geojsons/_tmp_usnic/USNIC_20251003/ice.shp'')
      = Inr \<lparr>crs = None, rows = [(0::nat, Some (Raw False False)), (1, None)]\<rparr>"
    by (simp add: sym_world_def)
  have f: "download_zip_bytes w ''https://usicecenter.gov/File/DownloadArchive?prd=3010032025''
      = Inr ''PK''"
    "extract_first_shp w ''PK'' ''geojsons/_tmp_usnic/USNIC_20251003''
      = Inr ''geojsons/_tmp_usnic/USNIC_20251003/ice.shp''"
    "to_file w ''geojsons/USNIC_20251003.geojson'' sym_gdf_ll = None"
    using assms by (simp_all add: download_zip_bytes_def extract_first_shp_def sym_world_def)
  have c: "OUTPUT_DIR sym_config = ''geojsons''"
    "ASSET_BASE_URL_GEOJSON sym_config = ''http://127.0.0.1:9091/geojsons''"
    by (simp_all add: sym_config_def)
  show ?thesis
    unfolding date_verdict_def Let_def sym_item_id sym_url c assms(3,5,6)
    using f r n e ne by (simp add: gdf_empty_def sym_row_def)
qed

lemma sym_loop:
  assumes "requests_get w = requests_get sym_world" "unzip_shp w = unzip_shp sym_world"
    "read_file w = read_file sym_world" "to_file w = to_file sym_world"
    "geos w = geos sym_world" "make_valid w = make_valid sym_world"
  shows "visit_dates sym_config w {} [739527] []
           (print_msg (Fetching 739527 739527 ''30'') empty_fs)
         = (Inr [sym_row],
            \<lparr>geojsons = [''geojsons/USNIC_20251003.geojson'' \<mapsto> sym_gdf_ll],
             parquet = None, public_copy = None,
             stdout =
               [Fetching 739527 739527 ''30'',
                Download ''https://usicecenter.gov/File/DownloadArchive?prd=3010032025'']\<rparr>)"
  by (simp add: visit_date_eq sym_verdict[OF assms] print_msg_def empty_fs_def)

lemma sym_save:
  assumes "to_parquet w = to_parquet sym_world"
  shows "save_parquet sym_config w
           \<lparr>columns = [''id'', ''datetime'', ''href'', ''geometry''], index = [], data = []\<rparr>
           [sym_row]
           \<lparr>geojsons = [''geojsons/USNIC_20251003.geojson'' \<mapsto> sym_gdf_ll],
             parquet = None, public_copy = None,
             stdout =
               [Fetching 739527 739527 ''30'',
                Download ''https://usicecenter.gov/File/DownloadArchive?prd=3010032025'']\<rparr>
         = (None, sym_saved)"
proof -
  have "canonical_row sym_row" by (simp add: canonical_row_def sym_row_def)
  then have "GeoDataFrame [sym_row] = sym_catalog"
    using GeoDataFrame_canonical[of "[sym_row]"] by (simp add: sym_catalog_def)
  then show ?thesis
    using assms
    by (simp add: save_parquet_def merge_catalog_def df_empty_def sym_world_def sym_config_def
          print_msg_def sym_saved_def)
qed

lemma sym_main:
  assumes "requests_get w = requests_get sym_world" "unzip_shp w = unzip_shp sym_world"
    "read_file w = read_file sym_world" "to_file w = to_file sym_world"
    "geos w = geos sym_world" "make_valid w = make_valid sym_world"
    "to_parquet w = to_parquet sym_world"
  shows "main sym_config w empty_fs = copy_parquet sym_config w sym_saved"
proof -
  have c: "START_DATE sym_config = 739527" "END_DATE sym_config = 739527"
    "USNIC_PREFIX sym_config = ''30''"
    by (simp_all add: sym_config_def)
  have l: "load_existing_parquet (print_msg (Fetching 739527 739527 ''30'') empty_fs)
      = Inr \<lparr>columns = [''id'', ''datetime'', ''href'', ''geometry''], index = [], data = []\<rparr>"
    by (simp add: load_existing_parquet_def print_msg_def empty_fs_def)
  have i: "existing_ids w
      \<lparr>columns = [''id'', ''datetime'', ''href'', ''geometry''], index = [],
       data = [] :: int record_row list\<rparr> = Inr {}"
    by (simp add: existing_ids_def df_empty_def)
  show ?thesis
    by (rule main_reaches_copy[where dates = "[739527]" and ids = "{}"
          and existing = "\<lparr>columns = [''id'', ''datetime'', ''href'', ''geometry''],
                            index = [], data = []\<rparr>"
          and new_rows = "[sym_row]"
          and sta = "\<lparr>geojsons = [''geojsons/USNIC_20251003.geojson'' \<mapsto> sym_gdf_ll],
             parquet = None, public_copy = None,
             stdout =
               [Fetching 739527 739527 ''30'',
                Download ''https://usicecenter.gov/File/DownloadArchive?prd=3010032025'']\<rparr>"])
       (simp_all only: c l i sym_dates sym_loop[OF assms(1-6)] sym_save[OF assms(7)])
qed



lemma sym_run: "main sym_config sym_world empty_fs = (None, sym_done)"
proof -
  have "main sym_config sym_world empty_fs = copy_parquet sym_config sym_world sym_saved"
    by (rule sym_main) simp_all
  then show ?thesis
    by (simp add: copy_parquet_def Let_def print_msg_def sym_saved_def sym_done_def sym_world_def
          sym_config_def)
qed

theorem second_run_changes_nothing_witness:
  "main sym_config sym_world empty_fs = (None, sym_done)
   \<and> (\<exists>ms. main sym_config sym_world sym_done =
          (None,
           sym_done\<lparr>stdout := stdout sym_done @ [Fetching 739527 739527 ''30''] @ ms
                       @ [NoNewItems] @ [Copying ''geojson_assets.parquet'' ''geojsons'']\<rparr>)
        \<and> list_all (\<lambda>m. \<not> is_saved m) ms)
   \<and> visit_date sym_config sym_world {''USNIC_20251003''} 739527 [] sym_done
       = (Inr [], print_msg (SkipPresent ''USNIC_20251003'') sym_done)"
proof -
  have p: "parquet sym_done \<noteq> None" by (simp add: sym_done_def sym_saved_def)
  have c: "START_DATE sym_config = 739527" "END_DATE sym_config = 739527"
    "USNIC_PREFIX sym_config = ''30''" "PARQUET_PATH sym_config = ''geojson_assets.parquet''"
    "OUTPUT_DIR sym_config = ''geojsons''"
    by (simp_all add: sym_config_def)
  have i: "item_id_of 739527 \<in> {''USNIC_20251003''}" by (simp add: sym_item_id)
  from second_run_changes_nothing[of sym_config sym_world empty_fs sym_done 739527
      "{''USNIC_20251003''}" "[]" sym_done] sym_run i p
  show ?thesis by (simp add: c sym_item_id)
qed

lemma merge_catalog_Inr: "\<exists>out. merge_catalog existing df_new = Inr out"
proof (cases "df_empty existing")
  case True
  then show ?thesis by (simp add: merge_catalog_def)
next
  case False
  let ?cols = "columns existing"
  let ?al = "align_columns ?cols df_new"
  obtain ex where ex: "columns ?al = columns df_new @ ex"
    "set ex = set ?cols - set (columns df_new)"
    using align_columns_shape[of ?cols df_new] by blast
  have none: "filter (\<lambda>c. c \<notin> set (columns ?al)) ?cols = []"
    using ex by (auto simp: filter_empty_conv)
  have "\<exists>n. getitem_cols ?al ?cols = Inr n" unfolding getitem_cols_def none by simp
  then show ?thesis using False by (auto simp: merge_catalog_def)
qed

lemma save_parquet_Some:
  assumes "save_parquet cfg w existing new_rows st = (Some e, st')"
  shows "\<exists>df. to_parquet w (PARQUET_PATH cfg) df = Some e"
proof -
  obtain out where "merge_catalog existing (GeoDataFrame new_rows) = Inr out"
    using merge_catalog_Inr by blast
  with assms show ?thesis
    by (auto simp: save_parquet_def split: if_splits option.splits)
qed

lemma copy_parquet_Some:
  assumes "copy_parquet cfg w st = (Some e, st')"
  shows "shutil_copy w (PARQUET_PATH cfg) (OUTPUT_DIR cfg) = Some e"
  using assms by (auto simp: copy_parquet_def Let_def split: if_splits option.splits)

lemma main_Some:
  assumes "main cfg w st0 = (Some e, st')"
  shows "load_existing_parquet
           (print_msg (Fetching (START_DATE cfg) (END_DATE cfg) (USNIC_PREFIX cfg)) st0) = Inl e
       \<or> (\<exists>existing.
              load_existing_parquet
                (print_msg (Fetching (START_DATE cfg) (END_DATE cfg) (USNIC_PREFIX cfg)) st0)
                = Inr existing
            \<and> existing_ids w existing = Inl e)
       \<or> snd (date_iter (START_DATE cfg) (END_DATE cfg)) = Some e
       \<or> (\<exists>df. to_parquet w (PARQUET_PATH cfg) df = Some e)
       \<or> shutil_copy w (PARQUET_PATH cfg) (OUTPUT_DIR cfg) = Some e"
proof -
  let ?stf = "print_msg (Fetching (START_DATE cfg) (END_DATE cfg) (USNIC_PREFIX cfg)) st0"
  show ?thesis
  proof (cases "load_existing_parquet ?stf")
    case (Inl e')
    with assms show ?thesis by (simp add: main_def Let_def)
  next
    case load: (Inr existing)
    show ?thesis
    proof (cases "existing_ids w existing")
      case (Inl e')
      with assms load have "e' = e" by (simp add: main_def Let_def)
      with Inl load show ?thesis by blast
    next
      case ids: (Inr ids)
      obtain dates raised where di: "date_iter (START_DATE cfg) (END_DATE cfg) = (dates, raised)"
        by (cases "date_iter (START_DATE cfg) (END_DATE cfg)")
      obtain new_rows sta where vd: "visit_dates cfg w ids dates [] ?stf = (Inr new_rows, sta)"
        using visit_dates_Inr by blast
      show ?thesis
      proof (cases raised)
        case (Some e')
        with assms load ids di vd have "e' = e" by (simp add: main_def Let_def)
        with Some di show ?thesis by simp
      next
        case None
        obtain r stb where sv: "save_parquet cfg w existing new_rows sta = (r, stb)"
          by (cases "save_parquet cfg w existing new_rows sta")
        show ?thesis
        proof (cases r)
          case (Some e')
          with assms load ids di vd None sv have "e' = e" by (simp add: main_def Let_def)
          with Some sv have "\<exists>df. to_parquet w (PARQUET_PATH cfg) df = Some e"
            using save_parquet_Some by blast
          then show ?thesis by blast
        next
          case n: None
          with assms load ids di vd None sv have "copy_parquet cfg w stb = (Some e, st')"
            by (simp add: main_def Let_def)
          then have "shutil_copy w (PARQUET_PATH cfg) (OUTPUT_DIR cfg) = Some e"
            by (rule copy_parquet_Some)
          then show ?thesis by blast
        qed
      qed
    qed
  qed
qed

text \<open>
  C5. In every world the loop over the dates ends without an error: a failure in the
  first \<open>try\<close> block, or in the second, is printed with the date and the error and
  leaves the staged rows as they were, and so does a shapefile without geometry. A run
  that ends with an error ends with the error of loading the catalog, of reading its
  \<open>id\<close> column, of the date arithmetic at the last date of the calendar, of writing the
  catalog, or of copying it; an error of loading or of writing the catalog does end it.
\<close>

theorem per_date_errors_are_skipped:
  "(\<exists>new_rows' st'. visit_dates cfg w ids ds new_rows st = (Inr new_rows', st'))
   \<and> (item_id_of d \<notin> ids
        \<and> fetch_shapefile cfg w (item_id_of d) (usnic_zip_url cfg d) st = (Inl e, st1)
      \<longrightarrow> visit_date cfg w ids d new_rows st
            = (Inr new_rows, print_msg (FailedShapefile d e) st1))
   \<and> (item_id_of d \<notin> ids
        \<and> fetch_shapefile cfg w (item_id_of d) (usnic_zip_url cfg d) st = (Inr shp_path, st1)
        \<and> process_shapefile cfg w d (item_id_of d) shp_path new_rows st1 = (Inl e, st2)
      \<longrightarrow> visit_date cfg w ids d new_rows st
            = (Inr new_rows, print_msg (ErrorProcessing d e) st2))
   \<and> (read_file w shp_path = Inr gdf_src
        \<and> (gdf_empty gdf_src \<or> list_all (\<lambda>r. snd r = None) (rows gdf_src))
      \<longrightarrow> process_shapefile cfg w d item_id shp_path new_rows st
            = (Inr new_rows, print_msg (NoValidGeometry d) st))
   \<and> (main cfg w st0 = (Some e, st') \<longrightarrow>
          load_existing_parquet
            (print_msg (Fetching (START_DATE cfg) (END_DATE cfg) (USNIC_PREFIX cfg)) st0) = Inl e
        \<or> (\<exists>existing.
              load_existing_parquet
                (print_msg (Fetching (START_DATE cfg) (END_DATE cfg) (USNIC_PREFIX cfg)) st0)
                = Inr existing
            \<and> existing_ids w existing = Inl e)
        \<or> snd (date_iter (START_DATE cfg) (END_DATE cfg)) = Some e
        \<or> (\<exists>df. to_parquet w (PARQUET_PATH cfg) df = Some e)
        \<or> shutil_copy w (PARQUET_PATH cfg) (OUTPUT_DIR cfg) = Some e)
   \<and> (load_existing_parquet
          (print_msg (Fetching (START_DATE cfg) (END_DATE cfg) (USNIC_PREFIX cfg)) st0) = Inl e
      \<longrightarrow> main cfg w st0
            = (Some e,
               print_msg (Fetching (START_DATE cfg) (END_DATE cfg) (USNIC_PREFIX cfg)) st0))
   \<and> (load_existing_parquet
          (print_msg (Fetching (START_DATE cfg) (END_DATE cfg) (USNIC_PREFIX cfg)) st0)
          = Inr existing
        \<and> existing_ids w existing = Inr ids
        \<and> date_iter (START_DATE cfg) (END_DATE cfg) = (dates, None)
        \<and> visit_dates cfg w ids dates []
            (print_msg (Fetching (START_DATE cfg) (END_DATE cfg) (USNIC_PREFIX cfg)) st0)
            = (Inr rows1, sta)
        \<and> rows1 \<noteq> []
        \<and> merge_catalog existing (GeoDataFrame rows1) = Inr df_out
        \<and> to_parquet w (PARQUET_PATH cfg) df_out = Some e
      \<longrightarrow> main cfg w st0 = (Some e, sta))"
proof (intro conjI impI)
  show "\<exists>new_rows' st'. visit_dates cfg w ids ds new_rows st = (Inr new_rows', st')"
    using visit_dates_Inr by blast
next
  assume "item_id_of d \<notin> ids
        \<and> fetch_shapefile cfg w (item_id_of d) (usnic_zip_url cfg d) st = (Inl e, st1)"
  then show "visit_date cfg w ids d new_rows st
            = (Inr new_rows, print_msg (FailedShapefile d e) st1)"
    by (simp add: visit_date_def Let_def)
next
  assume "item_id_of d \<notin> ids
        \<and> fetch_shapefile cfg w (item_id_of d) (usnic_zip_url cfg d) st = (Inr shp_path, st1)
        \<and> process_shapefile cfg w d (item_id_of d) shp_path new_rows st1 = (Inl e, st2)"
  then show "visit_date cfg w ids d new_rows st
            = (Inr new_rows, print_msg (ErrorProcessing d e) st2)"
    by (simp add: visit_date_def Let_def)
next
  assume "read_file w shp_path = Inr gdf_src
        \<and> (gdf_empty gdf_src \<or> list_all (\<lambda>r. snd r = None) (rows gdf_src))"
  then show "process_shapefile cfg w d item_id shp_path new_rows st
            = (Inr new_rows, print_msg (NoValidGeometry d) st)"
    by (auto simp: process_shapefile_def)
next
  assume "main cfg w st0 = (Some e, st')"
  then show "load_existing_parquet
            (print_msg (Fetching (START_DATE cfg) (END_DATE cfg) (USNIC_PREFIX cfg)) st0) = Inl e
        \<or> (\<exists>existing.
              load_existing_parquet
                (print_msg (Fetching (START_DATE cfg) (END_DATE cfg) (USNIC_PREFIX cfg)) st0)
                = Inr existing
            \<and> existing_ids w existing = Inl e)
        \<or> snd (date_iter (START_DATE cfg) (END_DATE cfg)) = Some e
        \<or> (\<exists>df. to_parquet w (PARQUET_PATH cfg) df = Some e)
        \<or> shutil_copy w (PARQUET_PATH cfg) (OUTPUT_DIR cfg) = Some e"
    by (rule main_Some)
next
  assume "load_existing_parquet
          (print_msg (Fetching (START_DATE cfg) (END_DATE cfg) (USNIC_PREFIX cfg)) st0) = Inl e"
  then show "main cfg w st0
            = (Some e,
               print_msg (Fetching (START_DATE cfg) (END_DATE cfg) (USNIC_PREFIX cfg)) st0)"
    by (simp add: main_def Let_def)
next
  assume "load_existing_parquet
          (print_msg (Fetching (START_DATE cfg) (END_DATE cfg) (USNIC_PREFIX cfg)) st0)
          = Inr existing
        \<and> existing_ids w existing = Inr ids
        \<and> date_iter (START_DATE cfg) (END_DATE cfg) = (dates, None)
        \<and> visit_dates cfg w ids dates []
            (print_msg (Fetching (START_DATE cfg) (END_DATE cfg) (USNIC_PREFIX cfg)) st0)
            = (Inr rows1, sta)
        \<and> rows1 \<noteq> []
        \<and> merge_catalog existing (GeoDataFrame rows1) = Inr df_out
        \<and> to_parquet w (PARQUET_PATH cfg) df_out = Some e"
  then show "main cfg w st0 = (Some e, sta)"
    by (simp add: main_def Let_def save_parquet_def)
qed



theorem per_date_errors_are_skipped_witness:
  "visit_date sym_config
       (sym_world\<lparr>requests_get := \<lambda>url. Inl (LibraryError ''HTTPError'')\<rparr>)
       {} 739527 [] empty_fs
     = (Inr [],
        empty_fs\<lparr>stdout :=
          [Download ''https://usicecenter.gov/File/DownloadArchive?prd=3010032025'',
           FailedShapefile 739527 (LibraryError ''HTTPError'')]\<rparr>)
   \<and> main sym_config sym_world (empty_fs\<lparr>parquet := Some (Unreadable (LibraryError ''ArrowInvalid''))\<rparr>)
     = (Some (LibraryError ''ArrowInvalid''),
        empty_fs\<lparr>parquet := Some (Unreadable (LibraryError ''ArrowInvalid'')),
                  stdout := [Fetching 739527 739527 ''30'']\<rparr>)"
proof -
  let ?w = "sym_world\<lparr>requests_get := \<lambda>url. Inl (LibraryError ''HTTPError'')\<rparr>"
  let ?e = "LibraryError ''HTTPError''"
  let ?url = "''https://usicecenter.gov/File/DownloadArchive?prd=3010032025''"
  let ?st0 = "empty_fs\<lparr>parquet := Some (Unreadable (LibraryError ''ArrowInvalid''))\<rparr>"
  have u: "usnic_zip_url sym_config 739527 = ?url" by (rule sym_url)
  have n: "item_id_of 739527 \<notin> {}" by simp
  have f: "fetch_shapefile sym_config ?w (item_id_of 739527) (usnic_zip_url sym_config 739527)
             empty_fs = (Inl ?e, print_msg (Download ?url) empty_fs)"
    by (simp add: fetch_shapefile_def Let_def download_zip_bytes_def u)
  have c: "START_DATE sym_config = 739527" "END_DATE sym_config = 739527"
    "USNIC_PREFIX sym_config = ''30''"
    by (simp_all add: sym_config_def)
  have l: "load_existing_parquet
      (print_msg (Fetching (START_DATE sym_config) (END_DATE sym_config)
         (USNIC_PREFIX sym_config)) ?st0) = Inl (LibraryError ''ArrowInvalid'')"
    by (simp add: load_existing_parquet_def print_msg_def)
  from per_date_errors_are_skipped[of sym_config ?w "{}" "[]" "[]" empty_fs 739527 ?e
      "print_msg (Download ?url) empty_fs"] n f
  have 1: "visit_date sym_config ?w {} 739527 [] empty_fs
     = (Inr [], print_msg (FailedShapefile 739527 ?e) (print_msg (Download ?url) empty_fs))"
    by blast
  from per_date_errors_are_skipped[of sym_config sym_world "{}" "[]" "[]" ?st0 739527
      "LibraryError ''ArrowInvalid''" _ _ _ _ _ ?st0] l
  have 2: "main sym_config sym_world ?st0
     = (Some (LibraryError ''ArrowInvalid''),
        print_msg (Fetching (START_DATE sym_config) (END_DATE sym_config)
         (USNIC_PREFIX sym_config)) ?st0)"
    by blast
  from 1 2 show ?thesis by (simp add: print_msg_def c empty_fs_def)
qed

subsection \<open>The copy of the catalog\<close>

lemma copy_parquet_stdout:
  assumes "copy_parquet cfg w stb = (None, st1)" and "parquet stb \<noteq> None"
  shows "stdout st1 = stdout stb @ [Copying (PARQUET_PATH cfg) (OUTPUT_DIR cfg)]"
  using assms by (auto simp: copy_parquet_def Let_def print_msg_def split: option.splits)

text \<open>
  C8, as the code has it. A run that ends normally with a catalog file on disk has
  printed the copy last and has copied the file, whether it saved the catalog or not.
  The copy is not guarded: when it raises, the run ends with its error, after the
  catalog was written, and no run with a catalog file on disk ends normally.
\<close>

theorem copy_failure_ends_the_run:
  "(main cfg w st0 = (None, st') \<and> parquet st' \<noteq> None \<longrightarrow>
        public_copy st' = parquet st'
      \<and> last (stdout st') = Copying (PARQUET_PATH cfg) (OUTPUT_DIR cfg))
   \<and> (main cfg w st0 = (r, st') \<and> parquet st' \<noteq> None
        \<and> shutil_copy w (PARQUET_PATH cfg) (OUTPUT_DIR cfg) = Some e
      \<longrightarrow> r \<noteq> None)
   \<and> (load_existing_parquet
          (print_msg (Fetching (START_DATE cfg) (END_DATE cfg) (USNIC_PREFIX cfg)) st0)
          = Inr existing
        \<and> existing_ids w existing = Inr ids
        \<and> date_iter (START_DATE cfg) (END_DATE cfg) = (dates, None)
        \<and> visit_dates cfg w ids dates []
            (print_msg (Fetching (START_DATE cfg) (END_DATE cfg) (USNIC_PREFIX cfg)) st0)
            = (Inr rows1, sta)
        \<and> save_parquet cfg w existing rows1 sta = (None, stb)
        \<and> parquet stb \<noteq> None
        \<and> shutil_copy w (PARQUET_PATH cfg) (OUTPUT_DIR cfg) = Some e
      \<longrightarrow> main cfg w st0
            = (Some e, print_msg (Copying (PARQUET_PATH cfg) (OUTPUT_DIR cfg)) stb))"
proof (intro conjI impI)
  assume a: "main cfg w st0 = (None, st') \<and> parquet st' \<noteq> None"
  then obtain stb where cp: "copy_parquet cfg w stb = (None, st')"
    by (auto elim: main_NoneE)
  from copy_parquet_None(1)[OF cp] a have pb: "parquet stb \<noteq> None" by simp
  from copy_parquet_None(3)[OF cp pb] copy_parquet_None(1)[OF cp]
  show "public_copy st' = parquet st'" by simp
  from copy_parquet_stdout[OF cp pb]
  show "last (stdout st') = Copying (PARQUET_PATH cfg) (OUTPUT_DIR cfg)" by simp
next
  assume a: "main cfg w st0 = (r, st') \<and> parquet st' \<noteq> None
        \<and> shutil_copy w (PARQUET_PATH cfg) (OUTPUT_DIR cfg) = Some e"
  show "r \<noteq> None"
  proof
    assume "r = None"
    with a obtain stb where cp: "copy_parquet cfg w stb = (None, st')"
      by (auto elim: main_NoneE)
    from copy_parquet_None(1)[OF cp] a have pb: "parquet stb \<noteq> None" by simp
    from copy_parquet_None(2)[OF cp pb] a show False by simp
  qed
next
  assume a: "load_existing_parquet
          (print_msg (Fetching (START_DATE cfg) (END_DATE cfg) (USNIC_PREFIX cfg)) st0)
          = Inr existing
        \<and> existing_ids w existing = Inr ids
        \<and> date_iter (START_DATE cfg) (END_DATE cfg) = (dates, None)
        \<and> visit_dates cfg w ids dates []
            (print_msg (Fetching (START_DATE cfg) (END_DATE cfg) (USNIC_PREFIX cfg)) st0)
            = (Inr rows1, sta)
        \<and> save_parquet cfg w existing rows1 sta = (None, stb)
        \<and> parquet stb \<noteq> None
        \<and> shutil_copy w (PARQUET_PATH cfg) (OUTPUT_DIR cfg) = Some e"
  then have "load_existing_parquet
          (print_msg (Fetching (START_DATE cfg) (END_DATE cfg) (USNIC_PREFIX cfg)) st0)
          = Inr existing"
    and "existing_ids w existing = Inr ids"
    and "date_iter (START_DATE cfg) (END_DATE cfg) = (dates, None)"
    and "visit_dates cfg w ids dates []
            (print_msg (Fetching (START_DATE cfg) (END_DATE cfg) (USNIC_PREFIX cfg)) st0)
            = (Inr rows1, sta)"
    and "save_parquet cfg w existing rows1 sta = (None, stb)"
    by simp_all
  then have "main cfg w st0 = copy_parquet cfg w stb"
    by (rule main_reaches_copy)
  with a show "main cfg w st0
            = (Some e, print_msg (Copying (PARQUET_PATH cfg) (OUTPUT_DIR cfg)) stb)"
    by (simp add: copy_parquet_def Let_def)
qed

theorem copy_failure_ends_the_run_witness:
  "main sym_config sym_world empty_fs = (None, sym_done)
   \<and> public_copy sym_done = parquet sym_done
   \<and> last (stdout sym_done) = Copying ''geojson_assets.parquet'' ''geojsons''
   \<and> fst (main sym_config
            (sym_world\<lparr>shutil_copy := \<lambda>src dst. Some (LibraryError ''PermissionError'')\<rparr>)
            empty_fs) \<noteq> None"
proof -
  let ?w = "sym_world\<lparr>shutil_copy := \<lambda>src dst. Some (LibraryError ''PermissionError'')\<rparr>"
  have c: "PARQUET_PATH sym_config = ''geojson_assets.parquet''"
    "OUTPUT_DIR sym_config = ''geojsons''"
    by (simp_all add: sym_config_def)
  have p: "parquet sym_done \<noteq> None" by (simp add: sym_done_def sym_saved_def)
  from copy_failure_ends_the_run[where cfg = sym_config and w = sym_world and ?st0.0 = empty_fs
      and st' = sym_done] sym_run p
  have 1: "public_copy sym_done = parquet sym_done
      \<and> last (stdout sym_done) = Copying ''geojson_assets.parquet'' ''geojsons''"
    by (simp add: c)
  have m: "main sym_config ?w empty_fs = copy_parquet sym_config ?w sym_saved"
    by (rule sym_main) simp_all
  obtain r st' where rs: "main sym_config ?w empty_fs = (r, st')"
    by (cases "main sym_config ?w empty_fs")
  with m have "parquet st' \<noteq> None"
    by (auto simp: copy_parquet_def Let_def print_msg_def sym_saved_def split: option.splits)
  moreover have "shutil_copy ?w (PARQUET_PATH sym_config) (OUTPUT_DIR sym_config)
      = Some (LibraryError ''PermissionError'')"
    by simp
  ultimately have "r \<noteq> None"
    using copy_failure_ends_the_run[where cfg = sym_config and w = ?w and ?st0.0 = empty_fs
      and r = r and st' = st' and e = "LibraryError ''PermissionError''"] rs by blast
  with rs 1 sym_run show ?thesis by simp
qed

theorem copy_failure_counterexample:
  "main sym_config copy_fails_world empty_fs
   = (Some (LibraryError ''SameFileError''),
      sym_saved\<lparr>stdout := stdout sym_saved @ [Copying ''geojson_assets.parquet'' ''geojsons'']\<rparr>)"
proof -
  have "main sym_config copy_fails_world empty_fs
          = copy_parquet sym_config copy_fails_world sym_saved"
    by (rule sym_main) (simp_all add: copy_fails_world_def)
  then show ?thesis
    by (simp add: copy_parquet_def Let_def print_msg_def sym_saved_def sym_config_def
          copy_fails_world_def)
qed

end
